theory Spec2Isabelle
  imports Main "HOL-Library.Word"
begin

unbundle bit_operations_syntax

text \<open>
  The server of the repository (\<open>src/server.js\<close>): the parsing of a line, the request
  signature, the classification of a response, the batch loop of /api/batch-check, the
  validation of /api/start-check and the summary of /api/save-results.

  What the server takes from outside is a parameter of the model: the reply of the remote
  endpoint to each request, the clock, and the failure of a file write. A request body is
  what the JSON parser of the server hands over: every field is any JSON value, or
  \<open>undefined\<close> when the caller did not send it.
\<close>

section \<open>JavaScript strings\<close>

text \<open>
  A JavaScript string is a finite sequence of 16-bit code units. Literals of the source
  are written \<open>str ''...''\<close>; every character of an Isabelle literal is a code unit
  below 256.
\<close>

type_synonym jsstring = "16 word list"
type_synonym byte = "8 word"
type_synonym u32 = "32 word"

definition unit16 :: "char \<Rightarrow> 16 word" where
  "unit16 c = of_nat (of_char c)"

definition str :: "string \<Rightarrow> jsstring" where
  "str s = map unit16 s"

definition colon :: "16 word" where
  "colon = 0x3A"

definition newline :: jsstring where
  "newline = [0x0A]"

text \<open>
  The decimal digits of a non-negative integer: the string conversion of an array length
  and of \<open>Date.now()\<close>, which are integers below \<open>2^53\<close>.
\<close>

fun show_nat :: "nat \<Rightarrow> jsstring" where
  "show_nat n =
     (if n < 10 then [of_nat (48 + n)] else show_nat (n div 10) @ [of_nat (48 + n mod 10)])"

text \<open>
  \<open>String.prototype.split\<close> with a one-unit separator: the string is cut at every
  occurrence of the separator, so the result has one part more than there are separators
  (the empty string gives one empty part).
\<close>

fun split :: "'a \<Rightarrow> 'a list \<Rightarrow> 'a list list" where
  "split sep [] = [[]]"
| "split sep (c # cs) =
     (if c = sep then [] # split sep cs
      else (case split sep cs of p # ps \<Rightarrow> (c # p) # ps | [] \<Rightarrow> [[c]]))"

text \<open>\<open>Array.prototype.join\<close> on an array of strings.\<close>

fun join :: "'a list \<Rightarrow> 'a list list \<Rightarrow> 'a list" where
  "join sep [] = []"
| "join sep [p] = p"
| "join sep (p # q # ps) = p @ sep @ join sep (q # ps)"

text \<open>
  \<open>String.prototype.trim\<close> strips white space and line terminators from both ends:
  TAB, LF, VT, FF, CR, SP, NBSP, the Unicode space separators, LS, PS and the byte order
  mark.
\<close>

definition js_whitespace :: "16 word \<Rightarrow> bool" where
  "js_whitespace u \<longleftrightarrow>
     u \<in> {0x09, 0x0A, 0x0B, 0x0C, 0x0D, 0x20, 0xA0, 0x1680, 0x2028, 0x2029, 0x202F, 0x205F,
          0x3000, 0xFEFF}
     \<or> (0x2000 \<le> u \<and> u \<le> 0x200A)"

definition trim :: "jsstring \<Rightarrow> jsstring" where
  "trim s = rev (dropWhile js_whitespace (rev (dropWhile js_whitespace s)))"

section \<open>parseComboLine\<close>

text \<open>
  The parsed record. The source calls its fields \<open>email\<close> and \<open>password\<close>; the same
  property name \<open>email\<close> occurs in the request parameters and in the result entries,
  whose fields are named \<open>p_email\<close> and \<open>o_email\<close> below.
\<close>

record combo =
  email :: jsstring
  password :: jsstring

definition parseComboLine :: "jsstring \<Rightarrow> combo option" where
  "parseComboLine line =
     (let parts = split colon line in
      if length parts \<ge> 2
      then Some \<lparr>email = trim (parts ! 0), password = trim (join [colon] (drop 1 parts))\<rparr>
      else None)"

section \<open>makeSign\<close>

text \<open>
  \<open>update(signStr, 'utf8')\<close> encodes the string as UTF-8: the code units are read as
  code points, a surrogate pair as one code point and a surrogate that stands alone as
  U+FFFD, and every code point is written in one to four bytes.
\<close>

definition encode_point :: "nat \<Rightarrow> byte list" where
  "encode_point cp =
     (if cp < 0x80 then [of_nat cp]
      else if cp < 0x800 then [of_nat (0xC0 + cp div 64), of_nat (0x80 + cp mod 64)]
      else if cp < 0x10000 then
        [of_nat (0xE0 + cp div 4096), of_nat (0x80 + cp div 64 mod 64), of_nat (0x80 + cp mod 64)]
      else
        [of_nat (0xF0 + cp div 262144), of_nat (0x80 + cp div 4096 mod 64),
         of_nat (0x80 + cp div 64 mod 64), of_nat (0x80 + cp mod 64)])"

text \<open>The first byte of the encoding of a code point, as a number.\<close>

definition lead :: "nat \<Rightarrow> nat" where
  "lead cp =
     (if cp < 0x80 then cp
      else if cp < 0x800 then 0xC0 + cp div 64
      else if cp < 0x10000 then 0xE0 + cp div 4096
      else 0xF0 + cp div 262144)"

definition high_surrogate :: "16 word \<Rightarrow> bool" where
  "high_surrogate u \<longleftrightarrow> 0xD800 \<le> u \<and> u \<le> 0xDBFF"

definition low_surrogate :: "16 word \<Rightarrow> bool" where
  "low_surrogate u \<longleftrightarrow> 0xDC00 \<le> u \<and> u \<le> 0xDFFF"

fun code_points :: "jsstring \<Rightarrow> nat list" where
  "code_points [] = []"
| "code_points [u] = (if high_surrogate u \<or> low_surrogate u then [0xFFFD] else [unat u])"
| "code_points (u # v # rest) =
     (if high_surrogate u \<and> low_surrogate v
      then (0x10000 + (unat u - 0xD800) * 0x400 + (unat v - 0xDC00)) # code_points rest
      else if high_surrogate u \<or> low_surrogate u then 0xFFFD # code_points (v # rest)
      else unat u # code_points (v # rest))"

definition utf8 :: "jsstring \<Rightarrow> byte list" where
  "utf8 s = concat (map encode_point (code_points s))"

text \<open>A string in which every surrogate is half of a pair.\<close>

fun paired :: "jsstring \<Rightarrow> bool" where
  "paired [] = True"
| "paired [u] = (\<not> high_surrogate u \<and> \<not> low_surrogate u)"
| "paired (u # v # rest) =
     (if high_surrogate u then low_surrogate v \<and> paired rest
      else \<not> low_surrogate u \<and> paired (v # rest))"

text \<open>
  \<open>crypto.createHash('md5')\<close>: the MD5 message digest of RFC 1321. The state is four
  32-bit words; a block is 64 bytes read as sixteen little-endian words.
\<close>

definition md5_K :: "u32 list" where
  "md5_K =
   [0xd76aa478, 0xe8c7b756, 0x242070db, 0xc1bdceee, 0xf57c0faf, 0x4787c62a, 0xa8304613, 0xfd469501,
    0x698098d8, 0x8b44f7af, 0xffff5bb1, 0x895cd7be, 0x6b901122, 0xfd987193, 0xa679438e, 0x49b40821,
    0xf61e2562, 0xc040b340, 0x265e5a51, 0xe9b6c7aa, 0xd62f105d, 0x02441453, 0xd8a1e681, 0xe7d3fbc8,
    0x21e1cde6, 0xc33707d6, 0xf4d50d87, 0x455a14ed, 0xa9e3e905, 0xfcefa3f8, 0x676f02d9, 0x8d2a4c8a,
    0xfffa3942, 0x8771f681, 0x6d9d6122, 0xfde5380c, 0xa4beea44, 0x4bdecfa9, 0xf6bb4b60, 0xbebfbc70,
    0x289b7ec6, 0xeaa127fa, 0xd4ef3085, 0x04881d05, 0xd9d4d039, 0xe6db99e5, 0x1fa27cf8, 0xc4ac5665,
    0xf4292244, 0x432aff97, 0xab9423a7, 0xfc93a039, 0x655b59c3, 0x8f0ccc92, 0xffeff47d, 0x85845dd1,
    0x6fa87e4f, 0xfe2ce6e0, 0xa3014314, 0x4e0811a1, 0xf7537e82, 0xbd3af235, 0x2ad7d2bb, 0xeb86d391]"

definition md5_S :: "nat list" where
  "md5_S =
   [7, 12, 17, 22, 7, 12, 17, 22, 7, 12, 17, 22, 7, 12, 17, 22,
    5, 9, 14, 20, 5, 9, 14, 20, 5, 9, 14, 20, 5, 9, 14, 20,
    4, 11, 16, 23, 4, 11, 16, 23, 4, 11, 16, 23, 4, 11, 16, 23,
    6, 10, 15, 21, 6, 10, 15, 21, 6, 10, 15, 21, 6, 10, 15, 21]"

definition rotl32 :: "nat \<Rightarrow> u32 \<Rightarrow> u32" where
  "rotl32 n x = push_bit n x OR drop_bit (32 - n) x"

type_synonym md5_state = "u32 \<times> u32 \<times> u32 \<times> u32"

definition md5_step :: "u32 list \<Rightarrow> md5_state \<Rightarrow> nat \<Rightarrow> md5_state" where
  "md5_step m st i =
     (case st of (a, b, c, d) \<Rightarrow>
        let (f, g) =
              (if i < 16 then ((b AND c) OR (NOT b AND d), i)
               else if i < 32 then ((d AND b) OR (NOT d AND c), (5 * i + 1) mod 16)
               else if i < 48 then (b XOR c XOR d, (3 * i + 5) mod 16)
               else (c XOR (b OR NOT d), (7 * i) mod 16))
        in (d, b + rotl32 (md5_S ! i) (f + a + md5_K ! i + m ! g), b, c))"

definition le32 :: "byte list \<Rightarrow> u32" where
  "le32 bs = foldr (\<lambda>b w. ucast b OR push_bit 8 w) bs 0"

fun chunks :: "nat \<Rightarrow> 'a list \<Rightarrow> 'a list list" where
  "chunks n [] = []"
| "chunks n (x # xs) = (if n = 0 then [] else take n (x # xs) # chunks n (drop n (x # xs)))"

definition md5_block :: "md5_state \<Rightarrow> byte list \<Rightarrow> md5_state" where
  "md5_block st block =
     (case st of (a0, b0, c0, d0) \<Rightarrow>
        (case foldl (md5_step (map le32 (chunks 4 block))) st [0..<64] of
           (a, b, c, d) \<Rightarrow> (a0 + a, b0 + b, c0 + c, d0 + d)))"

definition bytes_le :: "nat \<Rightarrow> 'a::len word \<Rightarrow> byte list" where
  "bytes_le k w = map (\<lambda>i. ucast (drop_bit (8 * i) w)) [0..<k]"

definition md5_pad :: "byte list \<Rightarrow> byte list" where
  "md5_pad msg =
     msg @ [0x80] @ replicate ((119 - length msg mod 64) mod 64) 0
       @ bytes_le 8 (of_nat (8 * length msg) :: 64 word)"

definition md5 :: "byte list \<Rightarrow> md5_state" where
  "md5 msg =
     foldl md5_block (0x67452301, 0xefcdab89, 0x98badcfe, 0x10325476) (chunks 64 (md5_pad msg))"

text \<open>\<open>digest('hex')\<close>: the sixteen digest bytes in lowercase hexadecimal.\<close>

definition hex_digit :: "nat \<Rightarrow> 16 word" where
  "hex_digit d = (if d < 10 then of_nat (48 + d) else of_nat (87 + d))"

definition hex_byte :: "byte \<Rightarrow> jsstring" where
  "hex_byte b = [hex_digit (unat b div 16), hex_digit (unat b mod 16)]"

definition digest_hex :: "md5_state \<Rightarrow> jsstring" where
  "digest_hex st =
     (case st of (a, b, c, d) \<Rightarrow>
        concat (map hex_byte (concat (map (bytes_le 4) [a, b, c, d]))))"

definition signStr :: "jsstring \<Rightarrow> jsstring \<Rightarrow> jsstring \<Rightarrow> jsstring \<Rightarrow> jsstring \<Rightarrow> jsstring" where
  "signStr email' e_captcha' channel' country' op' =
     str ''channel='' @ channel' @ str ''&country='' @ country' @ str ''&e_captcha='' @ e_captcha'
       @ str ''&email='' @ email' @ str ''&op='' @ op'"

definition makeSign :: "jsstring \<Rightarrow> jsstring \<Rightarrow> jsstring \<Rightarrow> jsstring \<Rightarrow> jsstring \<Rightarrow> jsstring" where
  "makeSign email' e_captcha' channel' country' op' =
     digest_hex (md5 (utf8 (signStr email' e_captcha' channel' country' op')))"

text \<open>The call with two arguments takes the declared defaults for the other three.\<close>

definition makeSign2 :: "jsstring \<Rightarrow> jsstring \<Rightarrow> jsstring" where
  "makeSign2 email' e_captcha' = makeSign email' e_captcha' [] [] (str ''email_code_login'')"

section \<open>Values of parsed JSON\<close>

text \<open>
  Numbers. String conversion prints a number by the integers \<open>s\<close>, \<open>k\<close> and \<open>n\<close> of
  ECMA-262 (Number::toString): the \<open>k\<close> digits \<open>s\<close> of the shortest decimal that reads
  back as the number, and the position \<open>n\<close> of the decimal point. A number is given here
  by that decimal, \<open>Dec m e\<close> for \<open>m\<close> times \<open>10^e\<close>, so that every double is a value
  of the type (the integers are \<open>Dec m 0\<close>); two decimals of one value are one number.
  Zero is \<open>m = 0\<close>: the source cannot tell \<open>-0\<close> from \<open>0\<close>. A JSON number beyond the
  range of the doubles is read as an infinity.
\<close>

datatype jsnum = Dec int int | PosInfinity | NegInfinity

definition num_of_nat :: "nat \<Rightarrow> jsnum" where
  "num_of_nat n = Dec (int n) 0"

fun num_zero :: "jsnum \<Rightarrow> bool" where
  "num_zero (Dec m e) = (m = 0)"
| "num_zero PosInfinity = False"
| "num_zero NegInfinity = False"

text \<open>\<open>x === k\<close> for a number \<open>x\<close> and an integer literal \<open>k\<close>.\<close>

fun num_is :: "jsnum \<Rightarrow> int \<Rightarrow> bool" where
  "num_is (Dec m e) k = (if 0 \<le> e then m * 10 ^ nat e = k else m = k * 10 ^ nat (- e))"
| "num_is PosInfinity k = False"
| "num_is NegInfinity k = False"

text \<open>The digits without the zeros at their end, which go into the exponent.\<close>

function strip_zeros :: "nat \<Rightarrow> int \<Rightarrow> nat \<times> int" where
  "strip_zeros s e =
     (if s \<noteq> 0 \<and> s mod 10 = 0 then strip_zeros (s div 10) (e + 1) else (s, e))"
  by pat_completeness auto
termination
  by (relation "measure fst") auto

text \<open>
  Number::toString for a positive number with digits \<open>s\<close> and exponent \<open>e\<close>: with \<open>k\<close>
  the number of digits and \<open>n = k + e\<close>, plain digits when \<open>-5 \<le> n \<le> 21\<close>, the
  exponent form otherwise.
\<close>

definition render_decimal :: "nat \<Rightarrow> int \<Rightarrow> jsstring" where
  "render_decimal s e =
     (let digits = show_nat s; k = int (length digits); n = k + e in
      if - 5 \<le> n \<and> n \<le> 21 then
        (if k \<le> n then digits @ replicate (nat (n - k)) 0x30
         else if 0 < n then take (nat n) digits @ [0x2E] @ drop (nat n) digits
         else [0x30, 0x2E] @ replicate (nat (- n)) 0x30 @ digits)
      else
        take 1 digits @ (if k = 1 then [] else 0x2E # drop 1 digits)
          @ [0x65] @ (if n - 1 < 0 then [0x2D] else [0x2B]) @ show_nat (nat \<bar>n - 1\<bar>))"

fun num_toString :: "jsnum \<Rightarrow> jsstring" where
  "num_toString (Dec m e) =
     (if m = 0 then [0x30]
      else (if m < 0 then [0x2D] else [])
             @ (case strip_zeros (nat \<bar>m\<bar>) e of (s, e') \<Rightarrow> render_decimal s e'))"
| "num_toString PosInfinity = str ''Infinity''"
| "num_toString NegInfinity = str ''-Infinity''"

text \<open>
  What \<open>JSON.parse\<close> returns, and \<open>undefined\<close> for a property that is not there.
  An object is the list of its own properties; where a name is listed twice, the first
  entry is the property.
\<close>

datatype jsval =
    JUndefined
  | JNull
  | JBool bool
  | JNum jsnum
  | JStr jsstring
  | JArr "jsval list"
  | JObj "(jsstring \<times> jsval) list"

text \<open>
  Reading a property of a value that is neither \<open>null\<close> nor \<open>undefined\<close>, for the
  names \<open>code\<close>, \<open>message\<close>, \<open>redirect\<close>, \<open>data\<close>, \<open>status\<close> and \<open>email\<close> (and, on
  an object, \<open>length\<close> and \<open>0\<close>): none of them is on the prototype of the value, so
  only an object's own property gives a value.
\<close>

fun get_prop :: "jsval \<Rightarrow> jsstring \<Rightarrow> jsval" where
  "get_prop (JObj kvs) k = (case map_of kvs k of Some v \<Rightarrow> v | None \<Rightarrow> JUndefined)"
| "get_prop _ k = JUndefined"

text \<open>
  The property \<open>length\<close> and the property \<open>0\<close> of a value that is neither \<open>null\<close> nor
  \<open>undefined\<close>: arrays and strings have them built in, an object has them when they are
  among its own properties.
\<close>

fun js_length :: "jsval \<Rightarrow> jsval" where
  "js_length (JArr xs) = JNum (num_of_nat (length xs))"
| "js_length (JStr s) = JNum (num_of_nat (length s))"
| "js_length (JObj kvs) = get_prop (JObj kvs) (str ''length'')"
| "js_length _ = JUndefined"

fun index0 :: "jsval \<Rightarrow> jsval" where
  "index0 (JArr xs) = (case xs of [] \<Rightarrow> JUndefined | x # rest \<Rightarrow> x)"
| "index0 (JStr s) = (case s of [] \<Rightarrow> JUndefined | u # rest \<Rightarrow> JStr [u])"
| "index0 (JObj kvs) = get_prop (JObj kvs) (str ''0'')"
| "index0 _ = JUndefined"

fun truthy :: "jsval \<Rightarrow> bool" where
  "truthy JUndefined = False"
| "truthy JNull = False"
| "truthy (JBool b) = b"
| "truthy (JNum x) = (\<not> num_zero x)"
| "truthy (JStr s) = (s \<noteq> [])"
| "truthy (JArr xs) = True"
| "truthy (JObj kvs) = True"

text \<open>\<open>v === k\<close> for an integer literal \<open>k\<close>: \<open>v\<close> is a number, and it is \<open>k\<close>.\<close>

fun is_number :: "jsval \<Rightarrow> int \<Rightarrow> bool" where
  "is_number (JNum x) k = num_is x k"
| "is_number v k = False"

text \<open>
  What \<open>for ... of\<close> runs over: the elements of an array, the code points of a string
  (each a string of one code unit, or of the two of a surrogate pair); a value of any
  other kind is not iterable.
\<close>

fun code_point_strings :: "jsstring \<Rightarrow> jsstring list" where
  "code_point_strings [] = []"
| "code_point_strings [u] = [[u]]"
| "code_point_strings (u # v # rest) =
     (if high_surrogate u \<and> low_surrogate v then [u, v] # code_point_strings rest
      else [u] # code_point_strings (v # rest))"

fun iterate :: "jsval \<Rightarrow> jsval list option" where
  "iterate (JArr xs) = Some xs"
| "iterate (JStr s) = Some (map JStr (code_point_strings s))"
| "iterate v = None"

fun sequence :: "'a option list \<Rightarrow> 'a list option" where
  "sequence [] = Some []"
| "sequence (None # xs) = None"
| "sequence (Some x # xs) = (case sequence xs of None \<Rightarrow> None | Some ys \<Rightarrow> Some (x # ys))"

text \<open>
  String conversion in a template literal; \<open>None\<close> is the TypeError of a value that has
  no primitive form. A parsed object converts through \<open>Object.prototype.toString\<close>
  unless it has an own property \<open>toString\<close>, which is never callable; an array joins the
  conversions of its elements with a comma, \<open>null\<close> and \<open>undefined\<close> elements as empty
  strings.
\<close>

fun toString :: "jsval \<Rightarrow> jsstring option" where
  "toString JUndefined = Some (str ''undefined'')"
| "toString JNull = Some (str ''null'')"
| "toString (JBool b) = Some (if b then str ''true'' else str ''false'')"
| "toString (JNum x) = Some (num_toString x)"
| "toString (JStr s) = Some s"
| "toString (JArr xs) =
     map_option (join (str '',''))
       (sequence (map (\<lambda>x. if x = JNull \<or> x = JUndefined then Some [] else toString x) xs))"
| "toString (JObj kvs) =
     (if str ''toString'' \<in> fst ` set kvs then None else Some (str ''[object Object]''))"

section \<open>Classification of a response\<close>

text \<open>An entry of \<open>results\<close>; \<open>code\<close> and \<open>serverMessage\<close> are \<open>undefined\<close> where the
  source leaves them out.\<close>

record outcome =
  status :: jsstring
  message :: jsstring
  o_email :: jsstring
  code :: jsval
  serverMessage :: jsval

text \<open>The messages of the TypeErrors the classification can raise (as V8 words them).\<close>

definition destructure_error :: jsstring where
  "destructure_error = str ''Cannot destructure property 'code' of 'response' as it is null.''"

definition primitive_error :: jsstring where
  "primitive_error = str ''Cannot convert object to primitive value''"

definition redirectUrl :: "jsval \<Rightarrow> jsval" where
  "redirectUrl response =
     (let r = get_prop response (str ''redirect'') in
      if truthy r then r
      else (let d = get_prop response (str ''data'') in
            if truthy d then get_prop d (str ''redirect'') else d))"

text \<open>
  Lines 275 to 302: the branch over \<open>code\<close> and \<open>message\<close>, in the source's order.
  \<open>Inl\<close> is an error raised inside the \<open>try\<close> block, with its message: the
  destructuring of line 275 raises on \<open>null\<close> (and would on \<open>undefined\<close>, which no
  parsed body is), the template literals of lines 284 and 293 raise on a value with no
  string form.
\<close>

definition classify :: "jsstring \<Rightarrow> jsval \<Rightarrow> jsstring + outcome" where
  "classify em response =
     (if response = JNull \<or> response = JUndefined then Inl destructure_error
      else
        let c = get_prop response (str ''code'');
            m = get_prop response (str ''message'')
        in
          if is_number c 1004 \<and> m = JStr (str ''Error_NoAccount'') then
            Inr \<lparr>status = str ''invalid'', message = str ''No account found'',
                 o_email = em, code = c, serverMessage = m\<rparr>
          else if is_number c 0 \<and> m = JStr (str ''Error_Success'') then
            (case toString (redirectUrl response) of
               None \<Rightarrow> Inl primitive_error
             | Some u \<Rightarrow>
                 Inr \<lparr>status = str ''valid'', message = str ''Success! Redirect: '' @ u,
                      o_email = em, code = c, serverMessage = m\<rparr>)
          else if is_number c 1004 \<and> m = JStr (str ''Error_FailedTooMuch'') then
            Inr \<lparr>status = str ''error'',
                 message = str ''Too many failed attempts. IP/Proxy banned'',
                 o_email = em, code = c, serverMessage = m\<rparr>
          else if is_number c 1004 \<and> m = JStr (str ''Error_ECaptcha_VerifyFail'') then
            Inr \<lparr>status = str ''error'', message = str ''Captcha verification failed'',
                 o_email = em, code = c, serverMessage = m\<rparr>
          else
            (case toString c of
               None \<Rightarrow> Inl primitive_error
             | Some cs \<Rightarrow>
                 (case toString m of
                    None \<Rightarrow> Inl primitive_error
                  | Some ms \<Rightarrow>
                      Inr \<lparr>status = str ''unknown'',
                           message = str ''Code: '' @ cs @ str '', Message: '' @ ms,
                           o_email = em, code = c, serverMessage = m\<rparr>)))"

text \<open>
  The outcome of the round trip: the promise resolves with the parsed body or rejects with
  an error (\<open>Invalid JSON response\<close>, \<open>Request timeout\<close>, or the socket's error).
\<close>

datatype reply = Resolved jsval | Rejected jsstring

text \<open>Lines 304 to 310: the \<open>catch\<close> of the attempt.\<close>

definition caught :: "jsstring \<Rightarrow> jsstring \<Rightarrow> outcome" where
  "caught em msg =
     \<lparr>status = str ''error'', message = msg, o_email = em,
      code = JUndefined, serverMessage = JUndefined\<rparr>"

definition settle :: "jsstring \<Rightarrow> reply \<Rightarrow> outcome" where
  "settle em rp =
     (case rp of
        Rejected msg \<Rightarrow> caught em msg
      | Resolved response \<Rightarrow>
          (case classify em response of Inl msg \<Rightarrow> caught em msg | Inr r \<Rightarrow> r))"

section \<open>Request bodies and responses\<close>

text \<open>
  \<open>req.body\<close>, with the fields the endpoints destructure. Each is whatever JSON value the
  caller sent under that name, \<open>JUndefined\<close> when the caller sent none: the endpoints
  check no type.
\<close>

record body =
  combos :: jsval
  batch :: jsval
  tokens :: jsval
  proxies :: jsval
  settings :: jsval
  results :: jsval

text \<open>
  What an endpoint answers: \<open>BatchResults rs\<close> is \<open>{success: true, results: rs}\<close>,
  \<open>CheckStarted n i\<close> is \<open>{success: true, message: 'Checking started', totalAccounts: n,
  checkId: i}\<close> (with \<open>n\<close> the \<open>length\<close> of \<open>combos\<close>, whatever value that is),
  \<open>ResultsSaved f u\<close> is \<open>{success: true, filename: f, downloadUrl: u}\<close>, and
  \<open>HttpError s m\<close> is \<open>res.status(s).json({error: m})\<close>.
\<close>

datatype http_response =
    BatchResults "outcome list"
  | CheckStarted jsval jsstring
  | ResultsSaved jsstring jsstring
  | HttpError nat jsstring

section \<open>The batch loop of /api/batch-check\<close>

text \<open>The object that line 226 serialises; the token is the value read from the body.\<close>

record params =
  p_email :: jsstring
  channel :: jsstring
  e_captcha :: jsval
  country :: jsstring

record payload =
  op :: jsstring
  sign :: jsstring
  params :: params
  lang :: jsstring

text \<open>
  What the loop does to the world, in order: a POST of a payload to the remote endpoint
  (always with the same URL, headers and 30000 ms socket timeout), and a
  \<open>setTimeout\<close> of so many milliseconds that the loop awaits.
\<close>

datatype event = Request payload | Sleep nat

text \<open>
  The remote endpoint and the network: the reply to the \<open>n\<close>-th request of a run
  (counting from 0), given its payload. Every request is settled, by a body, an error or
  the socket timeout.
\<close>

type_synonym network = "nat \<Rightarrow> payload \<Rightarrow> reply"

fun is_request :: "event \<Rightarrow> bool" where
  "is_request (Request pl) = True"
| "is_request (Sleep ms) = False"

definition attempts :: "event list \<Rightarrow> nat" where
  "attempts tr = length (filter is_request tr)"

definition invalid_combo :: "jsstring \<Rightarrow> outcome" where
  "invalid_combo combo' =
     \<lparr>status = str ''error'', message = str ''Invalid combo format'', o_email = combo',
      code = JUndefined, serverMessage = JUndefined\<rparr>"

text \<open>
  Line 213 on a record that is not a string: \<open>line.split\<close> is read from \<open>null\<close>, or is
  not a function. The call is outside the inner \<open>try\<close>, so the TypeError leaves the
  loop.
\<close>

definition split_error :: "jsval \<Rightarrow> jsstring" where
  "split_error v =
     (if v = JNull then str ''Cannot read properties of null (reading 'split')''
      else if v = JUndefined then str ''Cannot read properties of undefined (reading 'split')''
      else str ''line.split is not a function'')"

text \<open>
  Line 220, \<open>tokens[0] || ''\<close>, also outside the inner \<open>try\<close>: \<open>Inl\<close> is the message of
  the TypeError of reading \<open>0\<close> from \<open>undefined\<close> or \<open>null\<close>.
\<close>

definition select_token :: "jsval \<Rightarrow> jsstring + jsval" where
  "select_token toks =
     (if toks = JUndefined then Inl (str ''Cannot read properties of undefined (reading '0')'')
      else if toks = JNull then Inl (str ''Cannot read properties of null (reading '0')'')
      else let t = index0 toks in Inr (if truthy t then t else JStr []))"

definition request_payload :: "jsstring \<Rightarrow> jsval \<Rightarrow> jsstring \<Rightarrow> payload" where
  "request_payload em token tk =
     \<lparr>op = str ''email_code_login'', sign = makeSign2 em tk,
      params = \<lparr>p_email = em, channel = [], e_captcha = token, country = []\<rparr>,
      lang = str ''en''\<rparr>"

text \<open>
  Lines 222 to 310, the inner \<open>try\<close> and its \<open>catch\<close>, when \<open>k\<close> requests were sent
  before: the outcome pushed, and the request sent if one is. The signature needs the
  token as a string; a token with no string form raises in \<open>makeSign\<close>, before anything
  is sent.
\<close>

definition attempt :: "network \<Rightarrow> nat \<Rightarrow> jsstring \<Rightarrow> jsval \<Rightarrow> outcome \<times> event list" where
  "attempt net k em token =
     (case toString token of
        None \<Rightarrow> (caught em primitive_error, [])
      | Some tk \<Rightarrow>
          let pl = request_payload em token tk
          in (settle em (net k pl), [Request pl]))"

definition batch_error :: jsstring where
  "batch_error = str ''batch is not iterable''"

text \<open>
  Lines 212 to 314, over the values the iteration of \<open>batch\<close> gives. The state is the
  \<open>results\<close> array and the events so far. The first component of the value is the
  message of an error that left the loop, \<open>None\<close> when the loop ran to its end.
\<close>

fun batch_loop ::
  "network \<Rightarrow> jsval \<Rightarrow> jsval list \<Rightarrow> outcome list \<times> event list \<Rightarrow>
     jsstring option \<times> outcome list \<times> event list" where
  "batch_loop net toks [] (rs, tr) = (None, rs, tr)"
| "batch_loop net toks (JStr line # rest) (rs, tr) =
     (case parseComboLine line of
        None \<Rightarrow> batch_loop net toks rest (rs @ [invalid_combo line], tr)
      | Some parsed \<Rightarrow>
          (case select_token toks of
             Inl msg \<Rightarrow> (Some msg, rs, tr)
           | Inr token \<Rightarrow>
               batch_loop net toks rest
                 (rs @ [fst (attempt net (attempts tr) (email parsed) token)],
                  tr @ snd (attempt net (attempts tr) (email parsed) token) @ [Sleep 500])))"
| "batch_loop net toks (combo' # rest) (rs, tr) = (Some (split_error combo'), rs, tr)"

text \<open>
  Lines 206 to 321: the outer \<open>catch\<close> answers any error that left the loop with the
  status 500 and the error's message, and the \<open>results\<close> collected so far are dropped.
\<close>

definition batch_check :: "network \<Rightarrow> body \<Rightarrow> http_response \<times> event list" where
  "batch_check net b =
     (case iterate (batch b) of
        None \<Rightarrow> (HttpError 500 batch_error, [])
      | Some records \<Rightarrow>
          (case batch_loop net (tokens b) records ([], []) of
             (Some msg, rs, tr) \<Rightarrow> (HttpError 500 msg, tr)
           | (None, rs, tr) \<Rightarrow> (BatchResults rs, tr)))"

section \<open>/api/start-check\<close>

definition default_settings :: jsval where
  "default_settings =
     JObj [(str ''threadCount'', JNum (Dec 4 0)),
           (str ''delayBetweenRequests'', JNum (Dec 1000 0)),
           (str ''timeout'', JNum (Dec 30000 0)),
           (str ''useProxies'', JBool False),
           (str ''rotateProxies'', JBool False)]"

text \<open>\<open>workerData\<close> (lines 177 to 188); the source builds it and starts no worker with it.\<close>

record workerData =
  w_combos :: jsval
  w_tokens :: jsval
  w_proxies :: jsval
  w_settings :: jsval

definition make_workerData :: "body \<Rightarrow> workerData" where
  "make_workerData b =
     \<lparr>w_combos = combos b, w_tokens = tokens b,
      w_proxies = (if truthy (proxies b) then proxies b else JArr []),
      w_settings = (if truthy (settings b) then settings b else default_settings)\<rparr>"

definition required_error :: jsstring where
  "required_error = str ''Combos and tokens are required''"

text \<open>
  Lines 168 to 203, given the value of \<open>Date.now()\<close>. The endpoint answers and sends
  nothing to the remote endpoint on any path.
\<close>

definition start_check :: "nat \<Rightarrow> body \<Rightarrow> http_response \<times> event list" where
  "start_check now b =
     (if \<not> truthy (combos b) \<or> is_number (js_length (combos b)) 0
         \<or> \<not> truthy (tokens b) \<or> is_number (js_length (tokens b)) 0
      then (HttpError 400 required_error, [])
      else (CheckStarted (js_length (combos b)) (show_nat now), []))"

section \<open>/api/save-results\<close>

definition no_results_error :: jsstring where
  "no_results_error = str ''No results to save''"

definition filter_error :: jsstring where
  "filter_error = str ''results.filter is not a function''"

definition status_error :: "jsval \<Rightarrow> jsstring" where
  "status_error v =
     (if v = JNull then str ''Cannot read properties of null (reading 'status')''
      else str ''Cannot read properties of undefined (reading 'status')'')"

text \<open>\<open>toISOString().replace(/[:.]/g, '-')\<close>.\<close>

definition dashes :: "jsstring \<Rightarrow> jsstring" where
  "dashes s = map (\<lambda>u. if u = colon \<or> u = 0x2E then 0x2D else u) s"

text \<open>The rule under the heading: the literal of line 344 (two code units), fifty times.\<close>

definition rule_line :: jsstring where
  "rule_line = concat (replicate 50 [0xE2, 0x2022])"

text \<open>\<open>results.filter(r => r.status === k)\<close>, on entries that are not \<open>null\<close>.\<close>

definition with_status :: "jsstring \<Rightarrow> jsval list \<Rightarrow> jsval list" where
  "with_status k rs = filter (\<lambda>r. get_prop r (str ''status'') = JStr k) rs"

text \<open>
  Lines 336 to 348: the text of the results file, given the string of
  \<open>toLocaleString()\<close>; \<open>None\<close> when the \<open>email\<close> of a valid entry has no string form
  (the TypeError of line 346).
\<close>

definition file_content :: "jsstring \<Rightarrow> jsval list \<Rightarrow> jsstring option" where
  "file_content locale_now rs =
     (let validResults = with_status (str ''valid'') rs;
          head = str ''MLBB Checker Results - '' @ locale_now @ newline
            @ str ''Total Checked: '' @ show_nat (length rs) @ newline
            @ str ''Valid: '' @ show_nat (length validResults) @ newline
            @ str ''Invalid: '' @ show_nat (length (with_status (str ''invalid'') rs)) @ newline
            @ str ''Errors: '' @ show_nat (length (with_status (str ''error'') rs))
            @ newline @ newline
      in
        if length validResults > 0 then
          (case sequence (map (\<lambda>r. toString (get_prop r (str ''email''))) validResults) of
             None \<Rightarrow> None
           | Some emails \<Rightarrow>
               Some (head @ str ''VALID ACCOUNTS:'' @ newline @ rule_line @ newline
                       @ concat (map (\<lambda>e. e @ newline) emails)))
        else Some head)"

text \<open>
  Lines 324 to 362, given the strings of \<open>toISOString()\<close> and \<open>toLocaleString()\<close> and
  the error of \<open>writeFileSync\<close>, if it raises one. The second component is the file
  written: its name under \<open>results/\<close> and its text. Only an array has \<open>filter\<close>, and
  reading \<open>status\<close> from an entry \<open>null\<close> raises.
\<close>

definition save_results ::
  "jsstring \<Rightarrow> jsstring \<Rightarrow> jsstring option \<Rightarrow> body \<Rightarrow>
     http_response \<times> (jsstring \<times> jsstring) option" where
  "save_results iso_now locale_now write_error b =
     (if \<not> truthy (results b) \<or> is_number (js_length (results b)) 0
      then (HttpError 400 no_results_error, None)
      else
        (case results b of
           JArr rs \<Rightarrow>
             (case filter (\<lambda>r. r = JNull \<or> r = JUndefined) rs of
                bad # others \<Rightarrow> (HttpError 500 (status_error bad), None)
              | [] \<Rightarrow>
                  let filename = str ''results_'' @ dashes iso_now @ str ''.txt'' in
                  (case file_content locale_now rs of
                     None \<Rightarrow> (HttpError 500 primitive_error, None)
                   | Some content \<Rightarrow>
                       (case write_error of
                          Some msg \<Rightarrow> (HttpError 500 msg, None)
                        | None \<Rightarrow>
                            (ResultsSaved filename (str ''/results/'' @ filename),
                             Some (filename, content)))))
         | _ \<Rightarrow> (HttpError 500 filter_error, None)))"

section \<open>Reading a run\<close>

text \<open>The payloads posted and the delays awaited, in the order of the events.\<close>

fun requests :: "event list \<Rightarrow> payload list" where
  "requests [] = []"
| "requests (Request pl # tr) = pl # requests tr"
| "requests (Sleep ms # tr) = requests tr"

fun sleeps :: "event list \<Rightarrow> nat list" where
  "sleeps [] = []"
| "sleeps (Request pl # tr) = sleeps tr"
| "sleeps (Sleep ms # tr) = ms # sleeps tr"

text \<open>The records of the lines that parse, in the order of the lines.\<close>

definition wellformed :: "jsstring list \<Rightarrow> combo list" where
  "wellformed lines = List.map_filter parseComboLine lines"

text \<open>
  \<open>tokens[0] || ''\<close> on an array of strings, and the payload of a request with a string
  as its token.
\<close>

definition first_token :: "jsstring list \<Rightarrow> jsstring" where
  "first_token ts = (case ts of [] \<Rightarrow> [] | t # rest \<Rightarrow> if t \<noteq> [] then t else [])"

definition build_payload :: "jsstring \<Rightarrow> jsstring \<Rightarrow> payload" where
  "build_payload em token = request_payload em (JStr token) token"

text \<open>
  What one pass of the loop body appends to \<open>results\<close> for a line, when \<open>k\<close> requests
  were sent before it and the tokens are the strings \<open>ts\<close>.
\<close>

definition record_outcome :: "network \<Rightarrow> jsstring list \<Rightarrow> nat \<Rightarrow> jsstring \<Rightarrow> outcome" where
  "record_outcome net ts k line =
     (case parseComboLine line of
        None \<Rightarrow> invalid_combo line
      | Some parsed \<Rightarrow>
          settle (email parsed) (net k (build_payload (email parsed) (first_token ts))))"

text \<open>The events of one attempt: the request, then the wait.\<close>

definition attempt_events :: "jsstring list \<Rightarrow> combo \<Rightarrow> event list" where
  "attempt_events ts parsed =
     [Request (build_payload (email parsed) (first_token ts)), Sleep 500]"

section \<open>Sample inputs\<close>

text \<open>
  A request body for /api/batch-check with these lines and tokens and nothing else, and
  an entry of a saved list.
\<close>

definition batch_body :: "jsstring list \<Rightarrow> jsstring list \<Rightarrow> body" where
  "batch_body lines ts =
     \<lparr>combos = JUndefined, batch = JArr (map JStr lines), tokens = JArr (map JStr ts),
      proxies = JUndefined, settings = JUndefined, results = JUndefined\<rparr>"

definition entry :: "string \<Rightarrow> string \<Rightarrow> jsval" where
  "entry st em =
     JObj [(str ''status'', JStr (str st)), (str ''message'', JStr []),
           (str ''email'', JStr (str em))]"

text \<open>
  A response body with a code, a message and further properties; a remote endpoint that
  knows the account \<open>a@x.com\<close> and no other, and one whose every request times out.
\<close>

definition json_reply :: "int \<Rightarrow> string \<Rightarrow> (jsstring \<times> jsval) list \<Rightarrow> jsval" where
  "json_reply c m others =
     JObj ([(str ''code'', JNum (Dec c 0)), (str ''message'', JStr (str m))] @ others)"

definition stub_remote :: network where
  "stub_remote n pl =
     (if p_email (params pl) = str ''a@x.com''
      then Resolved (json_reply 0 ''Error_Success'' [])
      else Resolved (json_reply 1004 ''Error_NoAccount'' []))"

definition timeout_remote :: network where
  "timeout_remote n pl = Rejected (str ''Request timeout'')"

section \<open>Facts about strings\<close>

lemma unit16_eq_iff [simp]: "unit16 a = unit16 b \<longleftrightarrow> a = b"
proof -
  have "take_bit 16 (of_char c :: nat) = of_char c" for c
    by (rule take_bit_nat_eq_self) (rule less_trans [OF nat_of_char_less_256], simp)
  then show ?thesis by (simp add: unit16_def word_of_nat_eq_iff)
qed

lemma str_eq_iff [simp]: "str a = str b \<longleftrightarrow> a = b"
  unfolding str_def by (rule inj_map_eq_map) (simp add: inj_def)

lemma str_Nil [simp]: "str [] = []"
  by (simp add: str_def)

lemma str_append: "str (a @ b) = str a @ str b"
  by (simp add: str_def)

lemma split_nonempty: "split sep s \<noteq> []"
  by (induction s) (auto split: list.splits)

lemma split_first: "split sep s ! 0 = takeWhile (\<lambda>c. c \<noteq> sep) s"
  by (induction s) (auto split: list.splits simp: split_nonempty)

lemma length_split: "2 \<le> length (split sep s) \<longleftrightarrow> sep \<in> set s"
proof (induction s)
  case Nil
  show ?case by simp
next
  case (Cons c s)
  have "0 < length (split sep s)" using split_nonempty [of sep s] by simp
  with Cons show ?case by (auto split: list.splits)
qed

lemma join_split: "join [sep] (split sep s) = s"
proof (induction s)
  case Nil
  show ?case by simp
next
  case (Cons c s)
  obtain p ps where ps: "split sep s = p # ps"
    using split_nonempty [of sep s] by (cases "split sep s") auto
  from Cons ps show ?case by (cases ps) auto
qed

lemma join_rest: "join [sep] (drop (Suc 0) (split sep s)) = tl (dropWhile (\<lambda>c. c \<noteq> sep) s)"
proof (induction s)
  case Nil
  show ?case by simp
next
  case (Cons c s)
  obtain p ps where ps: "split sep s = p # ps"
    using split_nonempty [of sep s] by (cases "split sep s") auto
  show ?case
  proof (cases "c = sep")
    case True
    then show ?thesis by (simp add: join_split)
  next
    case False
    with Cons ps show ?thesis by simp
  qed
qed

lemma set_trim: "x \<in> set (trim s) \<Longrightarrow> x \<in> set s"
  unfolding trim_def by (auto dest!: set_dropWhileD)

lemma colon_not_in_email: "colon \<notin> set (trim (takeWhile (\<lambda>c. c \<noteq> colon) line))"
  using set_trim [of colon "takeWhile (\<lambda>c. c \<noteq> colon) line"]
    set_takeWhileD [of colon "\<lambda>c. c \<noteq> colon" line]
  by blast

lemma parseComboLine_Some:
  "colon \<in> set line \<Longrightarrow>
   parseComboLine line =
     Some \<lparr>email = trim (takeWhile (\<lambda>c. c \<noteq> colon) line),
           password = trim (tl (dropWhile (\<lambda>c. c \<noteq> colon) line))\<rparr>"
  using length_split [of colon line]
  by (simp add: parseComboLine_def Let_def split_first join_rest)

lemma parseComboLine_None: "colon \<notin> set line \<Longrightarrow> parseComboLine line = None"
  using length_split [of colon line] by (simp add: parseComboLine_def Let_def)

text \<open>
  C3 (as amended). A line with a separator parses to the text before the first separator
  and the text after it, each with the white space at its two ends removed; a line with no
  separator parses to nothing.
\<close>

theorem parseComboLine_first_separator:
  "(colon \<in> set line \<longrightarrow>
      parseComboLine line =
        Some \<lparr>email = trim (takeWhile (\<lambda>c. c \<noteq> colon) line),
              password = trim (tl (dropWhile (\<lambda>c. c \<noteq> colon) line))\<rparr>)
   \<and> (colon \<notin> set line \<longrightarrow> parseComboLine line = None)"
  using parseComboLine_Some parseComboLine_None by blast

theorem parseComboLine_first_separator_witness:
  "colon \<in> set (str ''user@x.com:pa:ss'')
   \<and> parseComboLine (str ''user@x.com:pa:ss'')
       = Some \<lparr>email = str ''user@x.com'', password = str ''pa:ss''\<rparr>
   \<and> colon \<notin> set (str ''badline'')
   \<and> parseComboLine (str ''badline'') = None"
proof -
  have a: "colon \<in> set (str ''user@x.com:pa:ss'')"
    by (simp add: str_def unit16_def colon_def)
  have b: "colon \<notin> set (str ''badline'')"
    by (simp add: str_def unit16_def colon_def)
  have "parseComboLine (str ''user@x.com:pa:ss'')
      = Some \<lparr>email = trim (takeWhile (\<lambda>c. c \<noteq> colon) (str ''user@x.com:pa:ss'')),
              password = trim (tl (dropWhile (\<lambda>c. c \<noteq> colon) (str ''user@x.com:pa:ss'')))\<rparr>"
    using parseComboLine_first_separator [of "str ''user@x.com:pa:ss''"] a by blast
  also have "\<dots> = Some \<lparr>email = str ''user@x.com'', password = str ''pa:ss''\<rparr>"
    by (simp add: str_def unit16_def colon_def trim_def js_whitespace_def)
  finally have c: "parseComboLine (str ''user@x.com:pa:ss'')
      = Some \<lparr>email = str ''user@x.com'', password = str ''pa:ss''\<rparr>" .
  have d: "parseComboLine (str ''badline'') = None"
    using parseComboLine_first_separator [of "str ''badline''"] b by blast
  from a b c d show ?thesis by blast
qed

text \<open>
  The secret is not always everything after the first separator: white space next to the
  separator is dropped.
\<close>

theorem parseComboLine_exact_counterexample:
  "parseComboLine (str ''a: b'') = Some \<lparr>email = str ''a'', password = str ''b''\<rparr>
   \<and> tl (dropWhile (\<lambda>c. c \<noteq> colon) (str ''a: b'')) = str '' b''
   \<and> str ''b'' \<noteq> str '' b''"
  by (simp add: parseComboLine_def str_def unit16_def colon_def trim_def js_whitespace_def)

section \<open>Facts about the batch loop\<close>

lemma attempts_append: "attempts (tr @ tr') = attempts tr + attempts tr'"
  by (simp add: attempts_def)

lemma requests_append [simp]: "requests (tr @ tr') = requests tr @ requests tr'"
  by (induction tr rule: requests.induct) auto

lemma sleeps_append [simp]: "sleeps (tr @ tr') = sleeps tr @ sleeps tr'"
  by (induction tr rule: sleeps.induct) auto

lemma wellformed_Nil [simp]: "wellformed [] = []"
  by (simp add: wellformed_def)

lemma wellformed_Cons:
  "wellformed (l # ls) =
     (case parseComboLine l of None \<Rightarrow> wellformed ls | Some p \<Rightarrow> p # wellformed ls)"
  by (simp add: wellformed_def split: option.split)

lemma select_token_strings: "select_token (JArr (map JStr ts)) = Inr (JStr (first_token ts))"
  by (cases ts) (simp_all add: select_token_def first_token_def)

lemma attempt_string:
  "attempt net k em (JStr t)
     = (settle em (net k (build_payload em t)), [Request (build_payload em t)])"
  by (simp add: attempt_def build_payload_def Let_def)

lemma batch_loop_tokens:
  "\<exists>rs'. batch_loop net (JArr (map JStr ts)) (map JStr lines) (rs, tr)
            = (None, rs @ rs', tr @ concat (map (attempt_events ts) (wellformed lines)))
         \<and> length rs' = length lines
         \<and> (\<forall>i<length lines.
               rs' ! i = record_outcome net ts (attempts tr + length (wellformed (take i lines)))
                           (lines ! i))"
proof (induction lines arbitrary: rs tr)
  case Nil
  show ?case by simp
next
  case (Cons l ls)
  show ?case
  proof (cases "parseComboLine l")
    case None
    from Cons [of "rs @ [invalid_combo l]" tr] obtain rs' where
      run: "batch_loop net (JArr (map JStr ts)) (map JStr ls) (rs @ [invalid_combo l], tr)
              = (None, (rs @ [invalid_combo l]) @ rs',
                 tr @ concat (map (attempt_events ts) (wellformed ls)))"
      and len: "length rs' = length ls"
      and at: "\<forall>i<length ls.
                 rs' ! i = record_outcome net ts (attempts tr + length (wellformed (take i ls)))
                             (ls ! i)"
      by blast
    have head: "invalid_combo l = record_outcome net ts (attempts tr) l"
      using None by (simp add: record_outcome_def)
    have "\<forall>i<length (l # ls).
            (invalid_combo l # rs') ! i
              = record_outcome net ts (attempts tr + length (wellformed (take i (l # ls))))
                  ((l # ls) ! i)"
    proof (intro allI impI)
      fix i assume "i < length (l # ls)"
      then show "(invalid_combo l # rs') ! i
              = record_outcome net ts (attempts tr + length (wellformed (take i (l # ls))))
                  ((l # ls) ! i)"
        using None at head by (cases i) (simp_all add: wellformed_Cons)
    qed
    with run len None show ?thesis
      by (intro exI [of _ "invalid_combo l # rs'"]) (simp add: wellformed_Cons)
  next
    case (Some p)
    define pl where "pl = build_payload (email p) (first_token ts)"
    define r where "r = settle (email p) (net (attempts tr) pl)"
    from Cons [of "rs @ [r]" "tr @ [Request pl, Sleep 500]"] obtain rs' where
      run: "batch_loop net (JArr (map JStr ts)) (map JStr ls)
              (rs @ [r], tr @ [Request pl, Sleep 500])
              = (None, (rs @ [r]) @ rs',
                 (tr @ [Request pl, Sleep 500]) @ concat (map (attempt_events ts) (wellformed ls)))"
      and len: "length rs' = length ls"
      and at: "\<forall>i<length ls.
                 rs' ! i = record_outcome net ts
                             (attempts (tr @ [Request pl, Sleep 500])
                                + length (wellformed (take i ls)))
                             (ls ! i)"
      by blast
    have one: "attempts (tr @ [Request pl, Sleep 500]) = Suc (attempts tr)"
      by (simp add: attempts_def)
    from at one have at': "\<forall>i<length ls.
        rs' ! i = record_outcome net ts (Suc (attempts tr + length (wellformed (take i ls))))
                    (ls ! i)"
      by simp
    have head: "r = record_outcome net ts (attempts tr) l"
      using Some by (simp add: record_outcome_def r_def pl_def)
    have idx: "\<forall>i<length (l # ls).
            (r # rs') ! i
              = record_outcome net ts (attempts tr + length (wellformed (take i (l # ls))))
                  ((l # ls) ! i)"
    proof (intro allI impI)
      fix i assume "i < length (l # ls)"
      then show "(r # rs') ! i
              = record_outcome net ts (attempts tr + length (wellformed (take i (l # ls))))
                  ((l # ls) ! i)"
        using Some at' head by (cases i) (simp_all add: wellformed_Cons)
    qed
    have ev: "attempt_events ts p = [Request (build_payload (email p) (first_token ts)), Sleep 500]"
      by (simp add: attempt_events_def)
    with run len Some idx show ?thesis
      by (intro exI [of _ "r # rs'"])
         (simp add: wellformed_Cons select_token_strings attempt_string r_def pl_def)
  qed
qed

lemma o_email_classify: "classify em response = Inr r \<Longrightarrow> o_email r = em"
  by (auto simp: classify_def Let_def split: if_splits option.splits)

lemma o_email_settle: "o_email (settle em rp) = em"
  by (auto simp: settle_def caught_def o_email_classify split: reply.splits sum.splits)

lemma first_token_nth: "ts \<noteq> [] \<Longrightarrow> first_token ts = ts ! 0"
  by (cases ts) (auto simp: first_token_def)

lemma requests_attempt_events:
  "requests (concat (map (attempt_events ts) ps))
     = map (\<lambda>p. build_payload (email p) (first_token ts)) ps"
  by (induction ps) (simp_all add: attempt_events_def)

lemma sleeps_attempt_events:
  "sleeps (concat (map (attempt_events ts) ps)) = replicate (length ps) 500"
  by (induction ps) (simp_all add: attempt_events_def)

lemma batch_check_tokens:
  assumes "batch b = JArr (map JStr lines)" and "tokens b = JArr (map JStr ts)"
  shows "\<exists>rs. batch_check net b
                = (BatchResults rs, concat (map (attempt_events ts) (wellformed lines)))
            \<and> length rs = length lines
            \<and> (\<forall>i<length lines.
                  rs ! i = record_outcome net ts (length (wellformed (take i lines))) (lines ! i))"
proof -
  from batch_loop_tokens [of net ts lines "[]" "[]"] obtain rs where
    run: "batch_loop net (JArr (map JStr ts)) (map JStr lines) ([], [])
            = (None, rs, concat (map (attempt_events ts) (wellformed lines)))"
    and len: "length rs = length lines"
    and at: "\<forall>i<length lines.
               rs ! i = record_outcome net ts (attempts [] + length (wellformed (take i lines)))
                          (lines ! i)"
    by auto
  from at have "\<forall>i<length lines.
      rs ! i = record_outcome net ts (length (wellformed (take i lines))) (lines ! i)"
    by (simp add: attempts_def)
  with run len assms show ?thesis
    by (simp add: batch_check_def)
qed

text \<open>Every request of a run is built with the token selected, whatever the records are.\<close>

lemma requests_attempt:
  "pl \<in> set (requests (snd (attempt net k em token))) \<Longrightarrow>
   \<exists>tk. toString token = Some tk \<and> pl = request_payload em token tk"
  by (auto simp: attempt_def Let_def split: option.splits)

lemma batch_loop_requests:
  "batch_loop net toks records (rs, tr) = (err, rs', tr') \<Longrightarrow>
   select_token toks = Inr token \<Longrightarrow>
   pl \<in> set (requests tr') \<Longrightarrow>
   pl \<in> set (requests tr)
     \<or> (\<exists>em tk. toString token = Some tk \<and> pl = request_payload em token tk)"
proof (induction net toks records "(rs, tr)" arbitrary: rs tr rule: batch_loop.induct)
  case (1 net toks rs tr)
  then show ?case by simp
next
  case (2 net toks line rest rs tr)
  show ?case
  proof (cases "parseComboLine line")
    case None
    with 2 show ?thesis by simp
  next
    case (Some parsed)
    let ?a = "attempt net (attempts tr) (email parsed) token"
    from 2(3) Some 2(4)
    have run: "batch_loop net toks rest (rs @ [fst ?a], tr @ snd ?a @ [Sleep 500])
                 = (err, rs', tr')"
      by simp
    from 2(2) [OF Some 2(4) run 2(4) 2(5)]
    have "pl \<in> set (requests (tr @ snd ?a @ [Sleep 500]))
          \<or> (\<exists>em tk. toString token = Some tk \<and> pl = request_payload em token tk)" .
    then show ?thesis
      using requests_attempt [of pl net "attempts tr" "email parsed" token] by auto
  qed
qed simp_all

lemma batch_check_requests:
  assumes "select_token (tokens b) = Inr token"
    and "pl \<in> set (requests (snd (batch_check net b)))"
  shows "\<exists>em tk. toString token = Some tk \<and> pl = request_payload em token tk"
proof (cases "iterate (batch b)")
  case None
  with assms(2) show ?thesis by (simp add: batch_check_def)
next
  case (Some records)
  obtain err rs tr where run: "batch_loop net (tokens b) records ([], []) = (err, rs, tr)"
    by (cases "batch_loop net (tokens b) records ([], [])") auto
  with Some assms(2) have "pl \<in> set (requests tr)"
    by (cases err) (simp_all add: batch_check_def)
  from batch_loop_requests [OF run assms(1) this] show ?thesis by simp
qed

section \<open>Sample lines\<close>

lemma parse_a: "parseComboLine (str ''a@x.com:tok1'')
    = Some \<lparr>email = str ''a@x.com'', password = str ''tok1''\<rparr>"
  by (simp add: parseComboLine_def str_def unit16_def colon_def trim_def js_whitespace_def)

lemma parse_b: "parseComboLine (str ''b@x.com:tok2'')
    = Some \<lparr>email = str ''b@x.com'', password = str ''tok2''\<rparr>"
  by (simp add: parseComboLine_def str_def unit16_def colon_def trim_def js_whitespace_def)

lemma parse_badline: "parseComboLine (str ''badline'') = None"
  by (simp add: parseComboLine_def str_def unit16_def colon_def)

lemma params_build_payload: "p_email (params (build_payload em t)) = em"
  by (simp add: build_payload_def request_payload_def)

section \<open>One outcome for every record\<close>

text \<open>
  A batch run over lines that are strings, with a list of tokens that are strings (empty
  or not), answers with the results: one outcome for every line, the outcome at index
  \<open>i\<close> being the one the loop body gives line \<open>i\<close>, with the identifier of that line.
\<close>

lemma batch_check_string_records:
  assumes "batch b = JArr (map JStr lines)" and "tokens b = JArr (map JStr ts)"
  shows "\<exists>rs tr. batch_check net b = (BatchResults rs, tr)
           \<and> length rs = length lines
           \<and> (\<forall>i<length lines.
                 rs ! i = record_outcome net ts (length (wellformed (take i lines))) (lines ! i)
                 \<and> o_email (rs ! i)
                     = (case parseComboLine (lines ! i) of
                          None \<Rightarrow> lines ! i | Some parsed \<Rightarrow> email parsed))"
proof -
  from batch_check_tokens [OF assms(1,2), of net] obtain rs where
    run: "batch_check net b
            = (BatchResults rs, concat (map (attempt_events ts) (wellformed lines)))"
    and len: "length rs = length lines"
    and at: "\<forall>i<length lines.
               rs ! i = record_outcome net ts (length (wellformed (take i lines))) (lines ! i)"
    by blast
  have "o_email (record_outcome net ts k l)
          = (case parseComboLine l of None \<Rightarrow> l | Some parsed \<Rightarrow> email parsed)" for k l
    by (simp add: record_outcome_def invalid_combo_def o_email_settle split: option.split)
  with run len at show ?thesis by simp
qed

text \<open>
  C2. The claim fails on a record that is not a string. The request with the records
  \<open>"a@x.com:tok1"\<close> and \<open>5\<close> and the token \<open>"T"\<close> is answered with the status 500 and
  the message of the TypeError of line 213, which is raised outside the inner \<open>try\<close>:
  the first record was sent and classified, and its outcome is not in the answer. The
  same two records with the string \<open>"5"\<close> in place of the number get one outcome each.
\<close>

theorem batch_check_non_string_record:
  "batch_check stub_remote
     \<lparr>combos = JUndefined, batch = JArr [JStr (str ''a@x.com:tok1''), JNum (Dec 5 0)],
      tokens = JArr [JStr (str ''T'')], proxies = JUndefined, settings = JUndefined,
      results = JUndefined\<rparr>
     = (HttpError 500 (str ''line.split is not a function''),
        [Request (build_payload (str ''a@x.com'') (str ''T'')), Sleep 500])
   \<and> batch_check stub_remote
     \<lparr>combos = JUndefined, batch = JArr [JStr (str ''a@x.com:tok1''), JStr (str ''5'')],
      tokens = JArr [JStr (str ''T'')], proxies = JUndefined, settings = JUndefined,
      results = JUndefined\<rparr>
     = (BatchResults
          [\<lparr>status = str ''valid'', message = str ''Success! Redirect: undefined'',
            o_email = str ''a@x.com'', code = JNum (Dec 0 0),
            serverMessage = JStr (str ''Error_Success'')\<rparr>,
           invalid_combo (str ''5'')],
        [Request (build_payload (str ''a@x.com'') (str ''T'')), Sleep 500])"
proof -
  have five: "parseComboLine (str ''5'') = None"
    by (simp add: parseComboLine_def str_def unit16_def colon_def)
  have tok: "select_token (JArr [JStr (str ''T'')]) = Inr (JStr (str ''T''))"
    by (simp add: select_token_def str_def)
  have lit: "str ''Success! Redirect: '' @ str ''undefined'' = str ''Success! Redirect: undefined''"
    by (simp add: str_def)
  have st: "settle (str ''a@x.com'')
      (stub_remote 0 (build_payload (str ''a@x.com'') (str ''T'')))
    = \<lparr>status = str ''valid'', message = str ''Success! Redirect: undefined'',
       o_email = str ''a@x.com'', code = JNum (Dec 0 0),
       serverMessage = JStr (str ''Error_Success'')\<rparr>"
    by (simp add: stub_remote_def params_build_payload settle_def classify_def
        redirectUrl_def json_reply_def Let_def lit)
  have a: "batch_check stub_remote
     \<lparr>combos = JUndefined, batch = JArr [JStr (str ''a@x.com:tok1''), JNum (Dec 5 0)],
      tokens = JArr [JStr (str ''T'')], proxies = JUndefined, settings = JUndefined,
      results = JUndefined\<rparr>
     = (HttpError 500 (str ''line.split is not a function''),
        [Request (build_payload (str ''a@x.com'') (str ''T'')), Sleep 500])"
    by (simp add: batch_check_def parse_a tok attempt_string split_error_def)
  have b: "batch_check stub_remote
     \<lparr>combos = JUndefined, batch = JArr [JStr (str ''a@x.com:tok1''), JStr (str ''5'')],
      tokens = JArr [JStr (str ''T'')], proxies = JUndefined, settings = JUndefined,
      results = JUndefined\<rparr>
     = (BatchResults
          [settle (str ''a@x.com'')
             (stub_remote 0 (build_payload (str ''a@x.com'') (str ''T''))),
           invalid_combo (str ''5'')],
        [Request (build_payload (str ''a@x.com'') (str ''T'')), Sleep 500])"
    by (simp add: batch_check_def parse_a five tok attempt_string attempts_def)
  from a b show ?thesis
    unfolding st by (rule conjI)
qed

section \<open>The token of a request\<close>

text \<open>
  C7. With a list of tokens (strings) that is not empty, every request of a batch run is
  built with the first token, whatever the batch is and whatever the position of the
  record: it is the \<open>e_captcha\<close> parameter and the token the signature is made of.
  When the batch is a list of lines, the requests are those of the lines that parse, in
  order.
\<close>

theorem batch_check_first_token:
  assumes "tokens b = JArr (map JStr ts)" and "ts \<noteq> []"
  shows "(batch b = JArr (map JStr lines) \<longrightarrow>
            requests (snd (batch_check net b))
              = map (\<lambda>parsed. build_payload (email parsed) (ts ! 0)) (wellformed lines))
         \<and> (\<forall>pl \<in> set (requests (snd (batch_check net b))).
               e_captcha (params pl) = JStr (ts ! 0)
               \<and> sign pl = makeSign (p_email (params pl)) (ts ! 0) [] [] (str ''email_code_login''))"
proof -
  have a: "requests (snd (batch_check net b))
      = map (\<lambda>parsed. build_payload (email parsed) (ts ! 0)) (wellformed lines)"
    if lines: "batch b = JArr (map JStr lines)"
  proof -
    from batch_check_tokens [OF lines assms(1), of net] obtain rs where
      "batch_check net b
         = (BatchResults rs, concat (map (attempt_events ts) (wellformed lines)))"
      by blast
    then show ?thesis
      using assms(2) by (simp add: requests_attempt_events first_token_nth)
  qed
  from assms have tok: "select_token (tokens b) = Inr (JStr (ts ! 0))"
    by (simp add: select_token_strings first_token_nth)
  have "e_captcha (params pl) = JStr (ts ! 0)
        \<and> sign pl = makeSign (p_email (params pl)) (ts ! 0) [] [] (str ''email_code_login'')"
    if "pl \<in> set (requests (snd (batch_check net b)))" for pl
    using batch_check_requests [OF tok that]
    by (auto simp: request_payload_def makeSign2_def)
  with a show ?thesis by blast
qed

theorem batch_check_first_token_witness:
  "requests (snd (batch_check timeout_remote
      (batch_body [str ''a@x.com:tok1'', str ''badline'', str ''b@x.com:tok2'']
         [str ''T1'', str ''T2''])))
   = [build_payload (str ''a@x.com'') (str ''T1''), build_payload (str ''b@x.com'') (str ''T1'')]"
proof -
  let ?lines = "[str ''a@x.com:tok1'', str ''badline'', str ''b@x.com:tok2'']"
  let ?b = "batch_body ?lines [str ''T1'', str ''T2'']"
  have b: "batch ?b = JArr (map JStr ?lines)"
    and t: "tokens ?b = JArr (map JStr [str ''T1'', str ''T2''])"
    by (simp_all add: batch_body_def)
  have n: "[str ''T1'', str ''T2''] \<noteq> []" by simp
  have w: "wellformed ?lines
      = [\<lparr>email = str ''a@x.com'', password = str ''tok1''\<rparr>,
         \<lparr>email = str ''b@x.com'', password = str ''tok2''\<rparr>]"
    by (simp add: wellformed_Cons parse_a parse_b parse_badline)
  from batch_check_first_token [OF t n, of ?lines timeout_remote, THEN conjunct1, rule_format, OF b]
  show ?thesis
    by (simp add: w)
qed

section \<open>The delay after a request\<close>

text \<open>
  C8 (as amended). The events of a batch run are, for every line that parses, the request
  followed by a wait of 500 ms: the wait follows every request, the last one too, no wait
  follows a line that does not parse, and the duration is the same whatever \<open>settings\<close>
  the request carries. The default of 1000 ms is what /api/start-check puts into the
  \<open>workerData\<close> it builds when the caller sends no settings.
\<close>

theorem batch_check_fixed_delay:
  assumes "batch b = JArr (map JStr lines)" and "tokens b = JArr (map JStr ts)"
  shows "snd (batch_check net b)
           = concat (map (\<lambda>parsed. [Request (build_payload (email parsed) (first_token ts)),
                                    Sleep 500])
                       (wellformed lines))
         \<and> sleeps (snd (batch_check net b)) = replicate (length (wellformed lines)) 500
         \<and> batch_check net (b\<lparr>settings := s\<rparr>) = batch_check net b
         \<and> get_prop (w_settings (make_workerData (b\<lparr>settings := JUndefined\<rparr>)))
               (str ''delayBetweenRequests'')
             = JNum (Dec 1000 0)"
proof -
  from batch_check_tokens [OF assms, of net] obtain rs where
    run: "batch_check net b
            = (BatchResults rs, concat (map (attempt_events ts) (wellformed lines)))"
    by blast
  have ev: "attempt_events ts
      = (\<lambda>parsed. [Request (build_payload (email parsed) (first_token ts)), Sleep 500])"
    by (rule ext) (simp add: attempt_events_def)
  from run have a: "snd (batch_check net b)
      = concat (map (\<lambda>parsed. [Request (build_payload (email parsed) (first_token ts)),
                               Sleep 500]) (wellformed lines))"
    by (simp add: ev)
  from run have c: "sleeps (snd (batch_check net b)) = replicate (length (wellformed lines)) 500"
    by (simp add: sleeps_attempt_events)
  have d: "batch_check net (b\<lparr>settings := s\<rparr>) = batch_check net b"
    by (simp add: batch_check_def split: option.split)
  have e: "get_prop (w_settings (make_workerData (b\<lparr>settings := JUndefined\<rparr>)))
               (str ''delayBetweenRequests'')
             = JNum (Dec 1000 0)"
    by (simp add: make_workerData_def default_settings_def)
  from a c d e show ?thesis by blast
qed

theorem batch_check_fixed_delay_witness:
  "sleeps (snd (batch_check timeout_remote
      (batch_body [str ''a@x.com:tok1'', str ''badline'', str ''b@x.com:tok2''] [str ''T''])))
   = [500, 500]"
proof -
  let ?lines = "[str ''a@x.com:tok1'', str ''badline'', str ''b@x.com:tok2'']"
  let ?b = "batch_body ?lines [str ''T'']"
  have b: "batch ?b = JArr (map JStr ?lines)" and t: "tokens ?b = JArr (map JStr [str ''T''])"
    by (simp_all add: batch_body_def)
  have w: "length (wellformed ?lines) = 2"
    by (simp add: wellformed_Cons parse_a parse_b parse_badline)
  from batch_check_fixed_delay [OF b t, of timeout_remote]
  have "sleeps (snd (batch_check timeout_remote ?b)) = replicate (length (wellformed ?lines)) 500"
    by blast
  then show ?thesis
    by (simp add: w numeral_2_eq_2)
qed

text \<open>
  The wait is not the configured one, and not 1000 ms when nothing is configured: a
  request that asks for 2000 ms and a request with no settings both wait 500 ms.
\<close>

theorem batch_check_delay_counterexample:
  "sleeps (snd (batch_check timeout_remote
      ((batch_body [str ''a@x.com:tok1'', str ''b@x.com:tok2''] [str ''T''])
         \<lparr>settings := JObj [(str ''delayBetweenRequests'', JNum (Dec 2000 0))]\<rparr>)))
     = [500, 500]
   \<and> settings (batch_body [str ''a@x.com:tok1'', str ''b@x.com:tok2''] [str ''T''])
     = JUndefined
   \<and> sleeps (snd (batch_check timeout_remote
        (batch_body [str ''a@x.com:tok1'', str ''b@x.com:tok2''] [str ''T''])))
     = [500, 500]"
  by (simp add: batch_check_def batch_body_def parse_a parse_b select_token_def
      attempt_string)

section \<open>Lines with empty fields\<close>

lemma parse_colon: "parseComboLine (str '':'') = Some \<lparr>email = [], password = []\<rparr>"
  by (simp add: parseComboLine_def str_def unit16_def colon_def trim_def)

text \<open>
  C9. Every line with a separator parses, however empty its fields are: the line made
  of one separator parses to an empty identifier and an empty secret. A batch run gives
  such a line a signature, a request and the outcome of that request, which is not the
  outcome of a line that does not parse.
\<close>

theorem separator_line_is_attempted:
  assumes "colon \<in> set line" and "batch b = JArr [JStr line]"
    and "tokens b = JArr (map JStr ts)"
  shows "\<exists>parsed. parseComboLine line = Some parsed
           \<and> batch_check net b
               = (BatchResults
                    [settle (email parsed) (net 0 (build_payload (email parsed) (first_token ts)))],
                  [Request (build_payload (email parsed) (first_token ts)), Sleep 500])
           \<and> sign (build_payload (email parsed) (first_token ts))
               = makeSign (email parsed) (first_token ts) [] [] (str ''email_code_login'')
           \<and> settle (email parsed) (net 0 (build_payload (email parsed) (first_token ts)))
               \<noteq> invalid_combo line"
proof -
  let ?e = "trim (takeWhile (\<lambda>c. c \<noteq> colon) line)"
  let ?parsed = "\<lparr>email = ?e, password = trim (tl (dropWhile (\<lambda>c. c \<noteq> colon) line))\<rparr>"
  have p: "parseComboLine line = Some ?parsed"
    by (rule parseComboLine_Some [OF assms(1)])
  with assms(2,3) have run: "batch_check net b
      = (BatchResults [settle ?e (net 0 (build_payload ?e (first_token ts)))],
         [Request (build_payload ?e (first_token ts)), Sleep 500])"
    by (simp add: batch_check_def select_token_strings attempt_string attempts_def)
  have "colon \<notin> set ?e"
    by (rule colon_not_in_email)
  with assms(1) have "?e \<noteq> line" by auto
  then have ne: "settle ?e (net 0 (build_payload ?e (first_token ts))) \<noteq> invalid_combo line"
    using o_email_settle [of ?e "net 0 (build_payload ?e (first_token ts))"]
    by (auto simp: invalid_combo_def)
  from p run ne show ?thesis
    by (simp add: build_payload_def request_payload_def makeSign2_def)
qed

theorem separator_line_is_attempted_witness:
  "colon \<in> set (str '':'')
   \<and> parseComboLine (str '':'') = Some \<lparr>email = [], password = []\<rparr>
   \<and> batch_check timeout_remote (batch_body [str '':''] [str ''T''])
       = (BatchResults [caught [] (str ''Request timeout'')],
          [Request (build_payload [] (str ''T'')), Sleep 500])"
proof -
  let ?b = "batch_body [str '':''] [str ''T'']"
  have c: "colon \<in> set (str '':'')"
    by (simp add: str_def unit16_def colon_def)
  have b: "batch ?b = JArr [JStr (str '':'')]" and t: "tokens ?b = JArr (map JStr [str ''T''])"
    by (simp_all add: batch_body_def)
  from separator_line_is_attempted [OF c b t, of timeout_remote] obtain parsed where
    p: "parseComboLine (str '':'') = Some parsed"
    and run: "batch_check timeout_remote ?b
      = (BatchResults
           [settle (email parsed)
              (timeout_remote 0 (build_payload (email parsed) (first_token [str ''T''])))],
         [Request (build_payload (email parsed) (first_token [str ''T''])), Sleep 500])"
    by blast
  from p have e: "email parsed = []" by (auto simp: parse_colon)
  have f: "first_token [str ''T''] = str ''T''"
    by (simp add: first_token_def str_def)
  from run have "batch_check timeout_remote ?b
      = (BatchResults [caught [] (str ''Request timeout'')],
         [Request (build_payload [] (str ''T'')), Sleep 500])"
    by (simp add: e f settle_def timeout_remote_def)
  with c parse_colon show ?thesis by blast
qed

section \<open>An empty token list\<close>

text \<open>
  C10. The batch loop does not reject an empty token list: the run answers with one
  outcome for every line, and every line that parses is sent with the empty string as its
  token, in the \<open>e_captcha\<close> parameter and in the signature.
\<close>

theorem batch_check_empty_tokens:
  assumes "batch b = JArr (map JStr lines)" and "tokens b = JArr []"
  shows "\<exists>rs tr. batch_check net b = (BatchResults rs, tr)
           \<and> length rs = length lines
           \<and> requests tr = map (\<lambda>parsed. build_payload (email parsed) []) (wellformed lines)
           \<and> (\<forall>pl \<in> set (requests tr).
                 e_captcha (params pl) = JStr []
                 \<and> sign pl = makeSign (p_email (params pl)) [] [] [] (str ''email_code_login''))"
proof -
  from assms(2) have toks: "tokens b = JArr (map JStr [])" by simp
  from batch_check_tokens [OF assms(1) toks, of net] obtain rs where
    run: "batch_check net b
            = (BatchResults rs, concat (map (attempt_events []) (wellformed lines)))"
    and len: "length rs = length lines"
    by blast
  have req: "requests (concat (map (attempt_events []) (wellformed lines)))
      = map (\<lambda>parsed. build_payload (email parsed) []) (wellformed lines)"
    by (simp add: requests_attempt_events first_token_def)
  have "\<forall>pl \<in> set (map (\<lambda>parsed. build_payload (email parsed) []) (wellformed lines)).
          e_captcha (params pl) = JStr []
          \<and> sign pl = makeSign (p_email (params pl)) [] [] [] (str ''email_code_login'')"
    by (auto simp: build_payload_def request_payload_def makeSign2_def)
  with run len req show ?thesis by simp
qed

theorem batch_check_empty_tokens_witness:
  "\<exists>rs tr. batch_check timeout_remote (batch_body [str ''a@x.com:tok1'', str ''badline''] [])
             = (BatchResults rs, tr)
     \<and> length rs = 2
     \<and> requests tr = [build_payload (str ''a@x.com'') []]"
proof -
  let ?lines = "[str ''a@x.com:tok1'', str ''badline'']"
  let ?b = "batch_body ?lines []"
  have b: "batch ?b = JArr (map JStr ?lines)" and t: "tokens ?b = JArr []"
    by (simp_all add: batch_body_def)
  have w: "wellformed ?lines = [\<lparr>email = str ''a@x.com'', password = str ''tok1''\<rparr>]"
    by (simp add: wellformed_Cons parse_a parse_badline)
  from batch_check_empty_tokens [OF b t, of timeout_remote] show ?thesis
    by (auto simp: w)
qed

section \<open>Empty input\<close>

text \<open>
  C4 (as amended). /api/start-check answers a request whose list of lines or list of
  tokens is missing or empty with the error 400 and sends nothing; it accepts every
  other request. /api/batch-check, which
  runs the batch, checks neither list: with an empty list of lines it answers with
  success, no outcome and no request, and with an empty list of tokens it answers with
  success and one outcome for every line.
\<close>

theorem empty_input_rejected_at_start:
  "(\<not> truthy (combos b) \<or> combos b = JArr [] \<or> \<not> truthy (tokens b) \<or> tokens b = JArr []
      \<longrightarrow> start_check now b = (HttpError 400 required_error, []))
   \<and> (combos b = JArr cs \<and> cs \<noteq> [] \<and> tokens b = JArr ts \<and> ts \<noteq> []
      \<longrightarrow> start_check now b
            = (CheckStarted (JNum (num_of_nat (length cs))) (show_nat now), []))
   \<and> (batch b = JArr [] \<longrightarrow> batch_check net b = (BatchResults [], []))
   \<and> (batch b = JArr (map JStr lines) \<and> tokens b = JArr []
        \<longrightarrow> (\<exists>rs tr. batch_check net b = (BatchResults rs, tr) \<and> length rs = length lines))"
proof -
  have a: "start_check now b = (HttpError 400 required_error, [])"
    if "\<not> truthy (combos b) \<or> combos b = JArr [] \<or> \<not> truthy (tokens b) \<or> tokens b = JArr []"
    using that by (auto simp: start_check_def num_of_nat_def simp del: show_nat.simps)
  have s: "start_check now b
      = (CheckStarted (JNum (num_of_nat (length cs))) (show_nat now), [])"
    if "combos b = JArr cs \<and> cs \<noteq> [] \<and> tokens b = JArr ts \<and> ts \<noteq> []"
    using that by (simp add: start_check_def num_of_nat_def del: show_nat.simps)
  have e: "batch_check net b = (BatchResults [], [])" if "batch b = JArr []"
    using that by (simp add: batch_check_def)
  have t: "\<exists>rs tr. batch_check net b = (BatchResults rs, tr) \<and> length rs = length lines"
    if "batch b = JArr (map JStr lines) \<and> tokens b = JArr []"
    using that batch_check_tokens [of b lines "[]" net] by auto
  from a s e t show ?thesis by blast
qed

theorem empty_input_rejected_at_start_witness:
  "\<not> truthy (combos (batch_body [] [str ''T'']))
   \<and> start_check 1700000000000 (batch_body [] [str ''T'']) = (HttpError 400 required_error, [])
   \<and> batch (batch_body [] [str ''T'']) = JArr []
   \<and> batch_check timeout_remote (batch_body [] [str ''T'']) = (BatchResults [], [])"
proof -
  have c: "\<not> truthy (combos (batch_body [] [str ''T'']))"
    and b: "batch (batch_body [] [str ''T'']) = JArr []"
    by (simp_all add: batch_body_def)
  from empty_input_rejected_at_start
      [of "batch_body [] [str ''T'']" 1700000000000 "[]" "[]" timeout_remote "[]"]
    c b show ?thesis by blast
qed

text \<open>
  A batch run is not rejected for an empty list of lines (it succeeds with no outcome),
  nor for an empty list of tokens (it sends the request of every line that parses).
\<close>

theorem empty_input_counterexample:
  "batch_check timeout_remote (batch_body [] [str ''T'']) = (BatchResults [], [])
   \<and> batch_check timeout_remote (batch_body [str ''a@x.com:tok1''] [])
       = (BatchResults [caught (str ''a@x.com'') (str ''Request timeout'')],
          [Request (build_payload (str ''a@x.com'') []), Sleep 500])"
  by (simp add: batch_check_def batch_body_def parse_a select_token_def attempt_string
      settle_def timeout_remote_def)

section \<open>The signature\<close>

lemma signStr_email_inj: "signStr e1 t c k opn = signStr e2 t c k opn \<longleftrightarrow> e1 = e2"
  by (simp add: signStr_def)

lemma signStr_token_inj: "signStr e t1 c k opn = signStr e t2 c k opn \<longleftrightarrow> t1 = t2"
  by (simp add: signStr_def)

lemma signStr_channel_inj: "signStr e t c1 k opn = signStr e t c2 k opn \<longleftrightarrow> c1 = c2"
  by (simp add: signStr_def)

lemma signStr_country_inj: "signStr e t c k1 opn = signStr e t c k2 opn \<longleftrightarrow> k1 = k2"
  by (simp add: signStr_def)

lemma signStr_op_inj: "signStr e t c k opn1 = signStr e t c k opn2 \<longleftrightarrow> opn1 = opn2"
  by (simp add: signStr_def)

subsection \<open>The bytes that are digested\<close>

lemma byte_of_nat_eq:
  "n < 256 \<Longrightarrow> m < 256 \<Longrightarrow> (of_nat n :: 8 word) = of_nat m \<longleftrightarrow> n = m"
  by (simp add: word_of_nat_eq_iff take_bit_nat_eq_self)

lemma cont_byte_eq [simp]:
  "(of_nat (a mod 64) :: 8 word) = of_nat (b mod 64) \<longleftrightarrow> a mod 64 = b mod 64"
proof -
  have "a mod 64 < 256" "b mod 64 < 256"
    using mod_less_divisor [of 64 a] mod_less_divisor [of 64 b] by linarith+
  then show ?thesis by (rule byte_of_nat_eq)
qed

lemma digits2: "(a::nat) div 64 = b div 64 \<Longrightarrow> a mod 64 = b mod 64 \<Longrightarrow> a = b"
  by (metis div_mult_mod_eq)

lemma digits3:
  assumes "(a::nat) div 4096 = b div 4096" and "a div 64 mod 64 = b div 64 mod 64"
    and "a mod 64 = b mod 64"
  shows "a = b"
proof -
  have "a div 64 div 64 = b div 64 div 64"
    using assms(1) by (simp add: div_mult2_eq [symmetric])
  from this assms(2) have "a div 64 = b div 64" by (rule digits2)
  from this assms(3) show ?thesis by (rule digits2)
qed

lemma digits4:
  assumes "(a::nat) div 262144 = b div 262144" and "a div 4096 mod 64 = b div 4096 mod 64"
    and "a div 64 mod 64 = b div 64 mod 64" and "a mod 64 = b mod 64"
  shows "a = b"
proof -
  have "a div 4096 div 64 = b div 4096 div 64"
    using assms(1) by (simp add: div_mult2_eq [symmetric])
  from this assms(2) have "a div 4096 = b div 4096" by (rule digits2)
  from this assms(3,4) show ?thesis by (rule digits3)
qed

lemma lead2: "(cp::nat) < 0x800 \<Longrightarrow> cp div 64 < 32"
  by (rule less_mult_imp_div_less) simp

lemma lead3: "(cp::nat) < 0x10000 \<Longrightarrow> cp div 4096 < 16"
  by (rule less_mult_imp_div_less) simp

lemma lead4: "(cp::nat) < 0x110000 \<Longrightarrow> cp div 262144 < 5"
  by (rule less_mult_imp_div_less) simp


lemma encode_point_lead: "\<exists>rest. encode_point cp = of_nat (lead cp) # rest"
  by (simp add: encode_point_def lead_def)

lemma lead_less: "cp < 0x110000 \<Longrightarrow> lead cp < 256"
  using lead2 [of cp] lead3 [of cp] lead4 [of cp] by (auto simp: lead_def)

lemma lead_class:
  assumes "a < 0x110000" and "b < 0x110000" and "lead a = lead b"
  shows "(a < 0x80 \<longleftrightarrow> b < 0x80) \<and> (a < 0x800 \<longleftrightarrow> b < 0x800)
         \<and> (a < 0x10000 \<longleftrightarrow> b < 0x10000)"
  using assms lead2 [of a] lead3 [of a] lead4 [of a] lead2 [of b] lead3 [of b] lead4 [of b]
  by (auto simp: lead_def split: if_splits)

lemma encode_point_inject:
  assumes "a < 0x110000" and "b < 0x110000" and "encode_point a @ x = encode_point b @ y"
  shows "a = b \<and> x = y"
proof -
  obtain ra rb where ra: "encode_point a = of_nat (lead a) # ra"
    and rb: "encode_point b = of_nat (lead b) # rb"
    using encode_point_lead [of a] encode_point_lead [of b] by blast
  with assms(3) have "(of_nat (lead a) :: 8 word) = of_nat (lead b)" by simp
  then have "lead a = lead b"
    using lead_less [OF assms(1)] lead_less [OF assms(2)] by (simp add: byte_of_nat_eq)
  from lead_class [OF assms(1,2) this]
  have cls: "a < 0x80 \<longleftrightarrow> b < 0x80" "a < 0x800 \<longleftrightarrow> b < 0x800" "a < 0x10000 \<longleftrightarrow> b < 0x10000"
    by blast+
  consider "a < 0x80" | "0x80 \<le> a" "a < 0x800" | "0x800 \<le> a" "a < 0x10000" | "0x10000 \<le> a"
    by linarith
  then show ?thesis
  proof cases
    case 1
    with cls assms(3) \<open>lead a = lead b\<close> show ?thesis
      by (simp add: encode_point_def lead_def)
  next
    case 2
    with cls have b: "\<not> b < 0x80" "b < 0x800" by auto
    from 2 b \<open>lead a = lead b\<close> have "a div 64 = b div 64" by (simp add: lead_def)
    moreover from 2 b assms(3) have "a mod 64 = b mod 64" "x = y"
      by (simp_all add: encode_point_def)
    ultimately show ?thesis using digits2 by blast
  next
    case 3
    with cls have b: "\<not> b < 0x80" "\<not> b < 0x800" "b < 0x10000" by auto
    from 3 b \<open>lead a = lead b\<close> have "a div 4096 = b div 4096" by (simp add: lead_def)
    moreover from 3 b assms(3) have "a div 64 mod 64 = b div 64 mod 64" "a mod 64 = b mod 64" "x = y"
      by (simp_all add: encode_point_def)
    ultimately show ?thesis using digits3 by blast
  next
    case 4
    with cls have b: "\<not> b < 0x80" "\<not> b < 0x800" "\<not> b < 0x10000" by auto
    from 4 b \<open>lead a = lead b\<close> have "a div 262144 = b div 262144" by (simp add: lead_def)
    moreover from 4 b assms(3) have "a div 4096 mod 64 = b div 4096 mod 64"
      "a div 64 mod 64 = b div 64 mod 64" "a mod 64 = b mod 64" "x = y"
      by (simp_all add: encode_point_def)
    ultimately show ?thesis using digits4 by blast
  qed
qed

lemma encode_point_nonempty: "encode_point cp \<noteq> []"
  by (simp add: encode_point_def)

lemma encode_points_inject:
  assumes "\<forall>cp \<in> set ps. cp < 0x110000" and "\<forall>cp \<in> set qs. cp < 0x110000"
    and "concat (map encode_point ps) = concat (map encode_point qs)"
  shows "ps = qs"
  using assms
proof (induction ps arbitrary: qs)
  case Nil
  then show ?case by (cases qs) (simp_all add: encode_point_nonempty)
next
  case (Cons p ps)
  show ?case
  proof (cases qs)
    case Nil
    with Cons.prems show ?thesis by (simp add: encode_point_nonempty)
  next
    case (Cons q qs')
    with Cons.prems have "encode_point p @ concat (map encode_point ps)
        = encode_point q @ concat (map encode_point qs')"
      by simp
    moreover from Cons Cons.prems have "p < 0x110000" "q < 0x110000" by simp_all
    ultimately have "p = q" and "concat (map encode_point ps) = concat (map encode_point qs')"
      using encode_point_inject by blast+
    with Cons.IH [of qs'] Cons.prems Cons show ?thesis by simp
  qed
qed

lemma unat16_less: "unat (u :: 16 word) < 0x10000"
  using unsigned_less [of u, where 'a = nat] by simp

lemma high_range: "high_surrogate u \<Longrightarrow> 0xD800 \<le> unat u \<and> unat u \<le> 0xDBFF"
  by (simp add: high_surrogate_def word_le_nat_alt)

lemma low_range: "low_surrogate u \<Longrightarrow> 0xDC00 \<le> unat u \<and> unat u \<le> 0xDFFF"
  by (simp add: low_surrogate_def word_le_nat_alt)

lemma pair_point_less:
  assumes "high_surrogate u" and "low_surrogate v"
  shows "0x10000 + (unat u - 0xD800) * 0x400 + (unat v - 0xDC00) < 0x110000"
  using high_range [OF assms(1)] low_range [OF assms(2)] by linarith

lemma code_points_less: "\<forall>cp \<in> set (code_points s). cp < 0x110000"
proof (induction s rule: code_points.induct)
  case 1
  show ?case by simp
next
  case (2 u)
  show ?case using unat16_less [of u] by simp
next
  case (3 u v rest)
  then show ?case
    using unat16_less [of u] pair_point_less [of u v] by simp
qed


text \<open>From the code points back to the code units, for a string of pairs.\<close>

lemma pair_point_inject:
  assumes "high_surrogate u" "low_surrogate v" "high_surrogate u'" "low_surrogate v'"
    and "0x10000 + (unat u - 0xD800) * 0x400 + (unat v - 0xDC00)
       = 0x10000 + (unat u' - 0xD800) * 0x400 + (unat v' - 0xDC00)"
  shows "u = u' \<and> v = v'"
proof -
  note r = high_range [OF assms(1)] low_range [OF assms(2)]
    high_range [OF assms(3)] low_range [OF assms(4)]
  define a where "a = unat u - 0xD800"
  define b where "b = unat v - 0xDC00"
  define a' where "a' = unat u' - 0xD800"
  define b' where "b' = unat v' - 0xDC00"
  have bb: "b < 1024" "b' < 1024" using r unfolding b_def b'_def by linarith+
  from assms(5) have eq: "a * 1024 + b = a' * 1024 + b'"
    by (simp add: a_def b_def a'_def b'_def)
  have "(a * 1024 + b) div 1024 = a" "(a' * 1024 + b') div 1024 = a'"
    "(a * 1024 + b) mod 1024 = b" "(a' * 1024 + b') mod 1024 = b'"
    using bb by simp_all
  with eq have "a = a'" "b = b'" by metis+
  with r have "unat u = unat u'" "unat v = unat v'"
    unfolding a_def b_def a'_def b'_def by linarith+
  then show ?thesis by (simp add: word_unat_eq_iff)
qed

lemma code_points_eq_Nil [simp]:
  "code_points s = [] \<longleftrightarrow> s = []" "[] = code_points s \<longleftrightarrow> s = []"
  by (cases s rule: code_points.cases; simp)+

lemma unit_not_pair_point [simp]:
  "unat (u :: 16 word) \<noteq> 0x10000 + (unat u' - 0xD800) * 0x400 + (unat v' - 0xDC00)"
  "0x10000 + (unat u' - 0xD800) * 0x400 + (unat v' - 0xDC00) \<noteq> unat (u :: 16 word)"
  using unat16_less [of u] by linarith+

lemma code_points_inject:
  "paired a \<Longrightarrow> paired b \<Longrightarrow> code_points a = code_points b \<Longrightarrow> a = b"
proof (induction a arbitrary: b rule: code_points.induct)
  case 1
  then show ?case by (cases b rule: code_points.cases) (auto split: if_splits)
next
  case (2 u)
  then show ?case
    by (cases b rule: code_points.cases) (auto split: if_splits simp: word_unat_eq_iff)
next
  case (3 u v rest)
  show ?case
  proof (cases b rule: code_points.cases)
    case 1
    with 3 show ?thesis by (auto split: if_splits)
  next
    case (2 u')
    with 3 show ?thesis by (auto split: if_splits)
  next
    case (3 u' v' rest')
    show ?thesis
    proof (cases "high_surrogate u")
      case True
      with "3.prems" have lv: "low_surrogate v" and pr: "paired rest" by simp_all
      show ?thesis
      proof (cases "high_surrogate u'")
        case hu': True
        with "3.prems" 3 have lv': "low_surrogate v'" and pr': "paired rest'" by simp_all
        from "3.prems"(3) 3 True lv hu' lv'
        have pt: "0x10000 + (unat u - 0xD800) * 0x400 + (unat v - 0xDC00)
            = 0x10000 + (unat u' - 0xD800) * 0x400 + (unat v' - 0xDC00)"
          and rest: "code_points rest = code_points rest'"
          by simp_all
        from pair_point_inject [OF True lv hu' lv' pt] have "u = u'" "v = v'" by simp_all
        moreover from "3.IH"(1) True lv pr pr' rest have "rest = rest'" by simp
        ultimately show ?thesis using 3 by simp
      next
        case False
        with "3.prems" 3 have nl: "\<not> low_surrogate u'" by simp
        from "3.prems"(3) 3 True lv False nl
        have "0x10000 + (unat u - 0xD800) * 0x400 + (unat v - 0xDC00) = unat u'"
          by simp
        with unat16_less [of u'] have False by linarith
        then show ?thesis ..
      qed
    next
      case False
      with "3.prems" have nl: "\<not> low_surrogate u" and pr: "paired (v # rest)" by simp_all
      show ?thesis
      proof (cases "high_surrogate u'")
        case True
        with "3.prems" 3 have lv': "low_surrogate v'" by simp
        from "3.prems"(3) 3 False nl True lv'
        have "unat u = 0x10000 + (unat u' - 0xD800) * 0x400 + (unat v' - 0xDC00)"
          by simp
        with unat16_less [of u] have False by linarith
        then show ?thesis ..
      next
        case hu': False
        with "3.prems" 3 have nl': "\<not> low_surrogate u'" and pr': "paired (v' # rest')"
          by simp_all
        from "3.prems"(3) 3 False nl hu' nl'
        have "unat u = unat u'" and rest: "code_points (v # rest) = code_points (v' # rest')"
          by simp_all
        then have "u = u'" by (simp add: word_unat_eq_iff)
        moreover from "3.IH"(3) False nl pr pr' rest have "v # rest = v' # rest'" by simp
        ultimately show ?thesis using 3 by simp
      qed
    qed
  qed
qed

lemma utf8_inject: "paired a \<Longrightarrow> paired b \<Longrightarrow> utf8 a = utf8 b \<Longrightarrow> a = b"
  using encode_points_inject [OF code_points_less code_points_less] code_points_inject
  by (auto simp: utf8_def)

lemma code_points_append_right:
  "b = [] \<or> \<not> low_surrogate (hd b) \<Longrightarrow> code_points (a @ b) = code_points a @ code_points b"
proof (induction a rule: code_points.induct)
  case 1
  show ?case by simp
next
  case (2 u)
  then show ?case by (cases b) auto
next
  case (3 u v rest)
  then show ?case by auto
qed

lemma code_points_append_left:
  "a = [] \<or> \<not> high_surrogate (last a) \<Longrightarrow> code_points (a @ b) = code_points a @ code_points b"
proof (induction a rule: code_points.induct)
  case 1
  show ?case by simp
next
  case (2 u)
  then show ?case by (cases b) auto
next
  case (3 u v rest)
  then show ?case by (auto split: if_splits)
qed

lemma utf8_separator:
  assumes "s \<noteq> []" and "\<not> low_surrogate (hd s)" and "\<not> high_surrogate (last s)"
  shows "utf8 (a @ s @ b) = utf8 a @ utf8 s @ utf8 b"
proof -
  have "code_points (a @ s @ b) = code_points a @ code_points (s @ b)"
    using assms(1,2) by (intro code_points_append_right) simp
  also have "code_points (s @ b) = code_points s @ code_points b"
    using assms(3) by (intro code_points_append_left) simp
  finally show ?thesis by (simp add: utf8_def)
qed

lemma utf8_signStr:
  "utf8 (signStr e t c k opn)
     = utf8 (str ''channel='') @ utf8 c @ utf8 (str ''&country='') @ utf8 k
       @ utf8 (str ''&e_captcha='') @ utf8 t @ utf8 (str ''&email='') @ utf8 e
       @ utf8 (str ''&op='') @ utf8 opn"
proof -
  have sep: "utf8 (a @ str s @ b) = utf8 a @ utf8 (str s) @ utf8 b"
    if "s \<in> {''&country='', ''&e_captcha='', ''&email='', ''&op=''}" for a b s
    using that
    by (intro utf8_separator)
      (auto simp: str_def unit16_def low_surrogate_def high_surrogate_def)
  have "code_points (str ''channel='' @ b) = code_points (str ''channel='') @ code_points b" for b
    by (intro code_points_append_left) (simp add: str_def unit16_def high_surrogate_def)
  then have first: "utf8 (str ''channel='' @ b) = utf8 (str ''channel='') @ utf8 b" for b
    by (simp add: utf8_def)
  show ?thesis
    unfolding signStr_def
    by (simp add: first sep del: append_assoc)
qed

lemma utf8_signStr_email:
  "utf8 (signStr e1 t c k opn) = utf8 (signStr e2 t c k opn) \<longleftrightarrow> utf8 e1 = utf8 e2"
  by (simp add: utf8_signStr)

lemma utf8_signStr_token:
  "utf8 (signStr e t1 c k opn) = utf8 (signStr e t2 c k opn) \<longleftrightarrow> utf8 t1 = utf8 t2"
  by (simp add: utf8_signStr)

lemma utf8_signStr_channel:
  "utf8 (signStr e t c1 k opn) = utf8 (signStr e t c2 k opn) \<longleftrightarrow> utf8 c1 = utf8 c2"
  by (simp add: utf8_signStr)

lemma utf8_signStr_country:
  "utf8 (signStr e t c k1 opn) = utf8 (signStr e t c k2 opn) \<longleftrightarrow> utf8 k1 = utf8 k2"
  by (simp add: utf8_signStr)

lemma utf8_signStr_op:
  "utf8 (signStr e t c k opn1) = utf8 (signStr e t c k opn2) \<longleftrightarrow> utf8 opn1 = utf8 opn2"
  by (simp add: utf8_signStr)

subsection \<open>The digest\<close>

text \<open>
  The digest has finitely many values and there are infinitely many strings, so for any
  fixed other arguments two identifiers have the same signature, and two with no
  surrogate at all.
\<close>

lemma unat_unit16: "unat (unit16 c) < 256"
proof -
  have "unat (unit16 c) = of_char c"
    unfolding unit16_def
    by (simp add: unat_of_nat take_bit_nat_eq_self less_trans [OF nat_of_char_less_256])
  then show ?thesis by simp
qed

lemma unit16_not_surrogate: "\<not> high_surrogate (unit16 c) \<and> \<not> low_surrogate (unit16 c)"
  using unat_unit16 [of c] by (simp add: high_surrogate_def low_surrogate_def word_le_nat_alt)

lemma paired_no_surrogate:
  "\<forall>u \<in> set s. \<not> high_surrogate u \<and> \<not> low_surrogate u \<Longrightarrow> paired s"
  by (induction s rule: paired.induct) simp_all

lemma paired_str: "paired (str s)"
  by (rule paired_no_surrogate) (simp add: str_def unit16_not_surrogate)

lemma makeSign_collision:
  "\<exists>e1 e2. paired e1 \<and> paired e2 \<and> e1 \<noteq> e2 \<and> makeSign e1 t c k opn = makeSign e2 t c k opn"
proof -
  let ?f = "\<lambda>s. md5 (utf8 (signStr (str s) t c k opn))"
  have "\<not> inj ?f"
  proof
    assume "inj ?f"
    moreover have "finite (range ?f)"
      by (rule finite_subset [OF subset_UNIV]) simp
    ultimately have "finite (UNIV :: string set)"
      by (rule finite_imageD [rotated])
    then show False by (simp add: infinite_UNIV_listI)
  qed
  then obtain s1 s2 where "s1 \<noteq> s2" and "?f s1 = ?f s2"
    by (auto simp: inj_def)
  then have "str s1 \<noteq> str s2"
    and "makeSign (str s1) t c k opn = makeSign (str s2) t c k opn"
    by (simp_all add: makeSign_def)
  with paired_str [of s1] paired_str [of s2] show ?thesis by blast
qed

text \<open>Two digests of the test suite of RFC 1321.\<close>

lemma md5_empty: "digest_hex (md5 []) = str ''d41d8cd98f00b204e9800998ecf8427e''"
  by code_simp

lemma md5_abc: "digest_hex (md5 (utf8 (str ''abc''))) = str ''900150983cd24fb0d6963f7d28e17f72''"
  by code_simp

text \<open>
  C6 (as amended). The signature is a function of its five arguments: equal arguments give
  the equal signature. It is the MD5 digest of the UTF-8 bytes of \<open>signStr\<close>. A change
  of exactly one argument always changes \<open>signStr\<close>, and it changes the bytes that are
  digested when the old and the new value have no surrogate outside a pair.
\<close>

theorem makeSign_deterministic:
  "(e1 = e2 \<and> t1 = t2 \<and> c1 = c2 \<and> k1 = k2 \<and> opn1 = opn2
      \<longrightarrow> makeSign e1 t1 c1 k1 opn1 = makeSign e2 t2 c2 k2 opn2)
   \<and> makeSign e1 t1 c1 k1 opn1 = digest_hex (md5 (utf8 (signStr e1 t1 c1 k1 opn1)))
   \<and> (e1 \<noteq> e2 \<longrightarrow> signStr e1 t1 c1 k1 opn1 \<noteq> signStr e2 t1 c1 k1 opn1)
   \<and> (t1 \<noteq> t2 \<longrightarrow> signStr e1 t1 c1 k1 opn1 \<noteq> signStr e1 t2 c1 k1 opn1)
   \<and> (c1 \<noteq> c2 \<longrightarrow> signStr e1 t1 c1 k1 opn1 \<noteq> signStr e1 t1 c2 k1 opn1)
   \<and> (k1 \<noteq> k2 \<longrightarrow> signStr e1 t1 c1 k1 opn1 \<noteq> signStr e1 t1 c1 k2 opn1)
   \<and> (opn1 \<noteq> opn2 \<longrightarrow> signStr e1 t1 c1 k1 opn1 \<noteq> signStr e1 t1 c1 k1 opn2)
   \<and> (paired e1 \<and> paired e2 \<and> e1 \<noteq> e2
        \<longrightarrow> utf8 (signStr e1 t1 c1 k1 opn1) \<noteq> utf8 (signStr e2 t1 c1 k1 opn1))
   \<and> (paired t1 \<and> paired t2 \<and> t1 \<noteq> t2
        \<longrightarrow> utf8 (signStr e1 t1 c1 k1 opn1) \<noteq> utf8 (signStr e1 t2 c1 k1 opn1))
   \<and> (paired c1 \<and> paired c2 \<and> c1 \<noteq> c2
        \<longrightarrow> utf8 (signStr e1 t1 c1 k1 opn1) \<noteq> utf8 (signStr e1 t1 c2 k1 opn1))
   \<and> (paired k1 \<and> paired k2 \<and> k1 \<noteq> k2
        \<longrightarrow> utf8 (signStr e1 t1 c1 k1 opn1) \<noteq> utf8 (signStr e1 t1 c1 k2 opn1))
   \<and> (paired opn1 \<and> paired opn2 \<and> opn1 \<noteq> opn2
        \<longrightarrow> utf8 (signStr e1 t1 c1 k1 opn1) \<noteq> utf8 (signStr e1 t1 c1 k1 opn2))"
proof -
  have s: "signStr e1 t1 c1 k1 opn1 \<noteq> signStr e2 t1 c1 k1 opn1" if "e1 \<noteq> e2"
    using that by (simp add: signStr_email_inj)
  have b: "utf8 (signStr e1 t1 c1 k1 opn1) \<noteq> utf8 (signStr e2 t1 c1 k1 opn1)"
    if "paired e1 \<and> paired e2 \<and> e1 \<noteq> e2"
    using that utf8_inject [of e1 e2] by (auto simp: utf8_signStr_email)
  have bt: "utf8 (signStr e1 t1 c1 k1 opn1) \<noteq> utf8 (signStr e1 t2 c1 k1 opn1)"
    if "paired t1 \<and> paired t2 \<and> t1 \<noteq> t2"
    using that utf8_inject [of t1 t2] by (auto simp: utf8_signStr_token)
  have bc: "utf8 (signStr e1 t1 c1 k1 opn1) \<noteq> utf8 (signStr e1 t1 c2 k1 opn1)"
    if "paired c1 \<and> paired c2 \<and> c1 \<noteq> c2"
    using that utf8_inject [of c1 c2] by (auto simp: utf8_signStr_channel)
  have bk: "utf8 (signStr e1 t1 c1 k1 opn1) \<noteq> utf8 (signStr e1 t1 c1 k2 opn1)"
    if "paired k1 \<and> paired k2 \<and> k1 \<noteq> k2"
    using that utf8_inject [of k1 k2] by (auto simp: utf8_signStr_country)
  have bo: "utf8 (signStr e1 t1 c1 k1 opn1) \<noteq> utf8 (signStr e1 t1 c1 k1 opn2)"
    if "paired opn1 \<and> paired opn2 \<and> opn1 \<noteq> opn2"
    using that utf8_inject [of opn1 opn2] by (auto simp: utf8_signStr_op)
  have m: "makeSign e1 t1 c1 k1 opn1 = digest_hex (md5 (utf8 (signStr e1 t1 c1 k1 opn1)))"
    by (simp add: makeSign_def)
  from s b bt bc bk bo m show ?thesis
    by (simp add: signStr_token_inj signStr_channel_inj signStr_country_inj signStr_op_inj)
qed

theorem makeSign_deterministic_witness:
  "str ''a@x.com'' \<noteq> str ''b@x.com''
   \<and> signStr (str ''a@x.com'') (str ''tok'') [] [] (str ''email_code_login'')
       \<noteq> signStr (str ''b@x.com'') (str ''tok'') [] [] (str ''email_code_login'')
   \<and> makeSign (str ''a@x.com'') (str ''tok'') [] [] (str ''email_code_login'')
       = str ''7b05171092a230037526d6da82ad1c8b''
   \<and> makeSign (str ''b@x.com'') (str ''tok'') [] [] (str ''email_code_login'')
       = str ''3352183d5adb2d96145bde001ce00e3f''"
proof -
  have d: "str ''a@x.com'' \<noteq> str ''b@x.com''" by simp
  note a = makeSign_deterministic
    [of "str ''a@x.com''" "str ''b@x.com''" "str ''tok''" "str ''tok''" "[]" "[]" "[]" "[]"
        "str ''email_code_login''" "str ''email_code_login''"]
  note b = makeSign_deterministic
    [of "str ''b@x.com''" "str ''a@x.com''" "str ''tok''" "str ''tok''" "[]" "[]" "[]" "[]"
        "str ''email_code_login''" "str ''email_code_login''"]
  from a d have s: "signStr (str ''a@x.com'') (str ''tok'') [] [] (str ''email_code_login'')
       \<noteq> signStr (str ''b@x.com'') (str ''tok'') [] [] (str ''email_code_login'')"
    by blast
  from a have "makeSign (str ''a@x.com'') (str ''tok'') [] [] (str ''email_code_login'')
      = digest_hex (md5 (utf8 (signStr (str ''a@x.com'') (str ''tok'') [] []
          (str ''email_code_login''))))"
    by blast
  also have "\<dots> = str ''7b05171092a230037526d6da82ad1c8b''"
    by code_simp
  finally have va: "makeSign (str ''a@x.com'') (str ''tok'') [] [] (str ''email_code_login'')
      = str ''7b05171092a230037526d6da82ad1c8b''" .
  from b have "makeSign (str ''b@x.com'') (str ''tok'') [] [] (str ''email_code_login'')
      = digest_hex (md5 (utf8 (signStr (str ''b@x.com'') (str ''tok'') [] []
          (str ''email_code_login''))))"
    by blast
  also have "\<dots> = str ''3352183d5adb2d96145bde001ce00e3f''"
    by code_simp
  finally have vb: "makeSign (str ''b@x.com'') (str ''tok'') [] [] (str ''email_code_login'')
      = str ''3352183d5adb2d96145bde001ce00e3f''" .
  from d s va vb show ?thesis by blast
qed

text \<open>
  A change of one argument does not always change the signature: an identifier that is
  a lone surrogate and the identifier U+FFFD have the same UTF-8 bytes, so the same
  signature. (By counting, no digest of 128 bits separates all identifiers:
  \<open>makeSign_collision\<close>.)
\<close>

theorem makeSign_lone_surrogate_counterexample:
  "[0xD800] \<noteq> [0xFFFD :: 16 word]
   \<and> makeSign [0xD800] (str ''T'') [] [] (str ''email_code_login'')
       = makeSign [0xFFFD] (str ''T'') [] [] (str ''email_code_login'')"
  by (simp add: makeSign_def utf8_signStr)
    (simp add: utf8_def high_surrogate_def low_surrogate_def)

section \<open>The summary of the results file\<close>

lemma sequence_Some:
  "\<forall>x \<in> set xs. x \<noteq> None \<Longrightarrow> \<exists>ys. sequence xs = Some ys"
proof (induction xs)
  case Nil
  show ?case by simp
next
  case (Cons x xs)
  then obtain y ys where "x = Some y" and "sequence xs = Some ys" by auto
  then show ?case by simp
qed

lemma file_content_head:
  "file_content locale_now rs = Some content \<Longrightarrow>
   \<exists>rest. content
       = str ''MLBB Checker Results - '' @ locale_now @ newline
         @ str ''Total Checked: '' @ show_nat (length rs) @ newline
         @ str ''Valid: '' @ show_nat (length (with_status (str ''valid'') rs)) @ newline
         @ str ''Invalid: '' @ show_nat (length (with_status (str ''invalid'') rs)) @ newline
         @ str ''Errors: '' @ show_nat (length (with_status (str ''error'') rs))
         @ newline @ newline @ rest
     \<and> (with_status (str ''valid'') rs = [] \<longrightarrow> rest = [])"
  unfolding file_content_def Let_def
  by (auto simp del: show_nat.simps split: if_splits option.splits)

lemma file_content_Some:
  "\<forall>r \<in> set (with_status (str ''valid'') rs). toString (get_prop r (str ''email'')) \<noteq> None \<Longrightarrow>
   \<exists>content. file_content locale_now rs = Some content"
proof -
  assume "\<forall>r \<in> set (with_status (str ''valid'') rs).
            toString (get_prop r (str ''email'')) \<noteq> None"
  then have "\<forall>x \<in> set (map (\<lambda>r. toString (get_prop r (str ''email'')))
                         (with_status (str ''valid'') rs)). x \<noteq> None"
    by simp
  from sequence_Some [OF this] obtain es where
    "sequence (map (\<lambda>r. toString (get_prop r (str ''email'')))
        (with_status (str ''valid'') rs)) = Some es"
    by blast
  then show ?thesis
    unfolding file_content_def Let_def by (simp del: show_nat.simps)
qed

text \<open>
  C5 (as amended). A list of results that is missing or empty is answered with the error
  400, and no summary is written. Whenever a results file is written, the list saved
  is an array that is not empty, and the counts in the head of the file are computed from
  it: the total is its length, and the counts of valid, invalid and error entries are the
  numbers of its entries with that status. These four lines are the whole summary: no
  line counts the entries with the status \<open>unknown\<close>, and nothing follows the summary when
  no entry is valid. A file is written for every array that is not empty, has no entry
  \<open>null\<close>, and whose valid entries have an identifier with a string form, when the write
  itself succeeds.
\<close>

theorem save_results_counts:
  "(\<not> truthy (results b) \<or> results b = JArr []
      \<longrightarrow> save_results iso_now locale_now write_error b
            = (HttpError 400 no_results_error, None))
   \<and> (save_results iso_now locale_now write_error b = (response, Some (filename, content))
      \<longrightarrow> (\<exists>rs rest. results b = JArr rs \<and> rs \<noteq> []
             \<and> content
                 = str ''MLBB Checker Results - '' @ locale_now @ newline
                   @ str ''Total Checked: '' @ show_nat (length rs) @ newline
                   @ str ''Valid: '' @ show_nat (length (with_status (str ''valid'') rs))
                   @ newline
                   @ str ''Invalid: '' @ show_nat (length (with_status (str ''invalid'') rs))
                   @ newline
                   @ str ''Errors: '' @ show_nat (length (with_status (str ''error'') rs))
                   @ newline @ newline @ rest
             \<and> (with_status (str ''valid'') rs = [] \<longrightarrow> rest = [])))
   \<and> (results b = JArr rs \<and> rs \<noteq> [] \<and> JNull \<notin> set rs \<and> JUndefined \<notin> set rs
        \<and> (\<forall>r \<in> set (with_status (str ''valid'') rs).
              toString (get_prop r (str ''email'')) \<noteq> None)
      \<longrightarrow> (\<exists>name written. save_results iso_now locale_now None b
             = (ResultsSaved name (str ''/results/'' @ name), Some (name, written))))"
proof -
  have a: "save_results iso_now locale_now write_error b = (HttpError 400 no_results_error, None)"
    if "\<not> truthy (results b) \<or> results b = JArr []"
    using that by (auto simp: save_results_def num_of_nat_def)
  have w: "\<exists>rs rest. results b = JArr rs \<and> rs \<noteq> []
             \<and> content
                 = str ''MLBB Checker Results - '' @ locale_now @ newline
                   @ str ''Total Checked: '' @ show_nat (length rs) @ newline
                   @ str ''Valid: '' @ show_nat (length (with_status (str ''valid'') rs))
                   @ newline
                   @ str ''Invalid: '' @ show_nat (length (with_status (str ''invalid'') rs))
                   @ newline
                   @ str ''Errors: '' @ show_nat (length (with_status (str ''error'') rs))
                   @ newline @ newline @ rest
             \<and> (with_status (str ''valid'') rs = [] \<longrightarrow> rest = [])"
    if saved: "save_results iso_now locale_now write_error b
                 = (response, Some (filename, content))"
  proof -
    from saved obtain rs where rs: "results b = JArr rs"
      by (cases "results b") (auto simp: save_results_def split: if_splits)
    from saved rs have ne: "rs \<noteq> []"
      by (auto simp: save_results_def num_of_nat_def)
    from saved rs have "file_content locale_now rs = Some content"
      by (auto simp: save_results_def Let_def split: if_splits list.splits option.splits)
    from file_content_head [OF this] rs ne show ?thesis by blast
  qed
  have s: "\<exists>name written. save_results iso_now locale_now None b
             = (ResultsSaved name (str ''/results/'' @ name), Some (name, written))"
    if ok: "results b = JArr rs \<and> rs \<noteq> [] \<and> JNull \<notin> set rs \<and> JUndefined \<notin> set rs
        \<and> (\<forall>r \<in> set (with_status (str ''valid'') rs).
              toString (get_prop r (str ''email'')) \<noteq> None)"
  proof -
    from ok have "filter (\<lambda>r. r = JNull \<or> r = JUndefined) rs = []"
      by (auto simp: filter_empty_conv)
    moreover from ok file_content_Some [of rs locale_now] obtain written where
      "file_content locale_now rs = Some written"
      by blast
    ultimately show ?thesis
      using ok by (simp add: save_results_def num_of_nat_def Let_def)
  qed
  from a w s show ?thesis by blast
qed

theorem save_results_counts_witness:
  "\<exists>name rest.
     save_results (str ''2024-01-01T00:00:00.000Z'') (str ''1/1/2024, 12:00:00 AM'') None
       ((batch_body [] [])\<lparr>results :=
          JArr [entry ''error'' ''a'', entry ''error'' ''b'', entry ''valid'' ''c'',
                entry ''unknown'' ''d'']\<rparr>)
     = (ResultsSaved name (str ''/results/'' @ name),
        Some (name,
          str ''MLBB Checker Results - '' @ str ''1/1/2024, 12:00:00 AM'' @ newline
          @ str ''Total Checked: 4'' @ newline
          @ str ''Valid: 1'' @ newline
          @ str ''Invalid: 0'' @ newline
          @ str ''Errors: 2'' @ newline @ newline @ rest))"
proof -
  let ?rs = "[entry ''error'' ''a'', entry ''error'' ''b'', entry ''valid'' ''c'',
              entry ''unknown'' ''d'']"
  let ?b = "(batch_body [] [])\<lparr>results := JArr ?rs\<rparr>"
  let ?iso = "str ''2024-01-01T00:00:00.000Z''"
  let ?loc = "str ''1/1/2024, 12:00:00 AM''"
  have v: "with_status (str ''valid'') ?rs = [entry ''valid'' ''c'']"
    and i: "with_status (str ''invalid'') ?rs = []"
    and e: "with_status (str ''error'') ?rs = [entry ''error'' ''a'', entry ''error'' ''b'']"
    by (simp_all add: with_status_def entry_def)
  have ok: "results ?b = JArr ?rs \<and> ?rs \<noteq> [] \<and> JNull \<notin> set ?rs \<and> JUndefined \<notin> set ?rs
        \<and> (\<forall>r \<in> set (with_status (str ''valid'') ?rs).
              toString (get_prop r (str ''email'')) \<noteq> None)"
    unfolding v by (simp add: entry_def)
  have num: "str ''Total Checked: '' @ show_nat 4 = str ''Total Checked: 4''"
    "str ''Valid: '' @ show_nat 1 = str ''Valid: 1''"
    "str ''Invalid: '' @ show_nat 0 = str ''Invalid: 0''"
    "str ''Errors: '' @ show_nat 2 = str ''Errors: 2''"
    by (simp_all add: str_def unit16_def)
  note counts = save_results_counts [of ?b ?iso ?loc None _ _ _ ?rs]
  from counts [THEN conjunct2, THEN conjunct2, rule_format, OF ok] obtain name written where
    saved: "save_results ?iso ?loc None ?b
              = (ResultsSaved name (str ''/results/'' @ name), Some (name, written))"
    by blast
  from counts [of "ResultsSaved name (str ''/results/'' @ name)" name written,
            THEN conjunct2, THEN conjunct1, rule_format, OF saved]
  obtain rs rest where rs: "results ?b = JArr rs"
    and written: "written
        = str ''MLBB Checker Results - '' @ ?loc @ newline
          @ str ''Total Checked: '' @ show_nat (length rs) @ newline
          @ str ''Valid: '' @ show_nat (length (with_status (str ''valid'') rs)) @ newline
          @ str ''Invalid: '' @ show_nat (length (with_status (str ''invalid'') rs)) @ newline
          @ str ''Errors: '' @ show_nat (length (with_status (str ''error'') rs))
          @ newline @ newline @ rest"
    by blast
  from rs have eq: "rs = ?rs" by simp
  have cnt: "length ?rs = 4" "length (with_status (str ''valid'') ?rs) = 1"
    "length (with_status (str ''invalid'') ?rs) = 0"
    "length (with_status (str ''error'') ?rs) = 2"
    unfolding v i e by simp_all
  from written have "written
        = str ''MLBB Checker Results - '' @ ?loc @ newline
          @ (str ''Total Checked: '' @ show_nat 4) @ newline
          @ (str ''Valid: '' @ show_nat 1) @ newline
          @ (str ''Invalid: '' @ show_nat 0) @ newline
          @ (str ''Errors: '' @ show_nat 2) @ newline @ newline @ rest"
    unfolding eq cnt by (simp del: show_nat.simps)
  then have "written
        = str ''MLBB Checker Results - '' @ ?loc @ newline
          @ str ''Total Checked: 4'' @ newline
          @ str ''Valid: 1'' @ newline
          @ str ''Invalid: 0'' @ newline
          @ str ''Errors: 2'' @ newline @ newline @ rest"
    unfolding num by simp
  with saved show ?thesis by blast
qed

text \<open>
  Two saved lists for which the claim fails. The empty list, which a run of no record or
  a run stopped before its first outcome leaves, gets the error 400 and no summary. And
  a list of one outcome with the status \<open>unknown\<close> gets a summary with the total 1 and
  the counts 0, 0 and 0: no count of the summary is the number of its unknown outcomes.
\<close>

theorem save_results_summary_counterexample:
  "save_results (str ''2024-01-01T00:00:00.000Z'') (str ''1/1/2024, 12:00:00 AM'') None
     ((batch_body [] [])\<lparr>results := JArr []\<rparr>)
     = (HttpError 400 no_results_error, None)
   \<and> save_results (str ''2024-01-01T00:00:00.000Z'') (str ''1/1/2024, 12:00:00 AM'') None
       ((batch_body [] [])\<lparr>results := JArr [entry ''unknown'' ''d'']\<rparr>)
     = (ResultsSaved (str ''results_2024-01-01T00-00-00-000Z.txt'')
          (str ''/results/results_2024-01-01T00-00-00-000Z.txt''),
        Some (str ''results_2024-01-01T00-00-00-000Z.txt'',
          str ''MLBB Checker Results - 1/1/2024, 12:00:00 AM'' @ newline
          @ str ''Total Checked: 1'' @ newline
          @ str ''Valid: 0'' @ newline
          @ str ''Invalid: 0'' @ newline
          @ str ''Errors: 0'' @ newline @ newline))
   \<and> length (with_status (str ''unknown'') [entry ''unknown'' ''d'']) = 1"
  by (simp add: save_results_def file_content_def with_status_def entry_def batch_body_def
      num_of_nat_def dashes_def colon_def newline_def str_def unit16_def Let_def)

section \<open>The classification\<close>

lemma settle_Rejected: "settle em (Rejected msg) = caught em msg"
  by (simp add: settle_def)

lemma settle_null: "settle em (Resolved JNull) = caught em destructure_error"
  by (simp add: settle_def classify_def)

lemma status_classify:
  "classify em response = Inr r \<Longrightarrow>
   status r \<in> {str ''valid'', str ''invalid'', str ''error'', str ''unknown''}"
  by (auto simp: classify_def Let_def split: if_splits option.splits)

lemma status_settle:
  "status (settle em rp) \<in> {str ''valid'', str ''invalid'', str ''error'', str ''unknown''}"
proof (cases rp)
  case (Rejected msg)
  then show ?thesis by (simp add: settle_def caught_def)
next
  case (Resolved response)
  show ?thesis
  proof (cases "classify em response")
    case (Inl msg)
    with Resolved show ?thesis by (simp add: settle_def caught_def)
  next
    case (Inr r)
    with Resolved status_classify [OF Inr] show ?thesis by (simp add: settle_def)
  qed
qed

text \<open>
  C1 (as amended). Every reply gets an outcome, and no error leaves the classification:
  the status is one of \<open>valid\<close>, \<open>invalid\<close>, \<open>error\<close> and \<open>unknown\<close>. For a response that
  is not \<open>null\<close>, with code \<open>c\<close> (any JSON value; it is 1004 or 0 when it is the number
  of that value) and message \<open>m\<close>: 1004 with \<open>Error_NoAccount\<close> is
  \<open>invalid\<close>; 0 with \<open>Error_Success\<close> is \<open>valid\<close>, the message naming the redirect of
  the response or of its \<open>data\<close>; 1004 with \<open>Error_FailedTooMuch\<close> and 1004 with
  \<open>Error_ECaptcha_VerifyFail\<close> are both \<open>error\<close>, told apart by the message; every other
  pair is \<open>unknown\<close>, with code and message echoed as string conversion prints them
  (a number in the exponent form from \<open>1e+21\<close> on). A failed round trip is \<open>error\<close> with
  the failure's message. The rows for \<open>valid\<close> and \<open>unknown\<close> hold when the values put
  into the message have a string form; a \<open>null\<close> response and a value with no string form
  are \<open>error\<close>, with the message of the TypeError.
\<close>

theorem classification_table:
  assumes "response \<noteq> JNull" and "response \<noteq> JUndefined"
    and "c = get_prop response (str ''code'')"
    and "m = get_prop response (str ''message'')"
  shows
    "settle em (Rejected msg)
       = \<lparr>status = str ''error'', message = msg, o_email = em,
          code = JUndefined, serverMessage = JUndefined\<rparr>
     \<and> settle em (Resolved JNull) = caught em destructure_error
     \<and> status (settle em rp) \<in> {str ''valid'', str ''invalid'', str ''error'', str ''unknown''}
     \<and> (is_number c 1004 \<and> m = JStr (str ''Error_NoAccount'') \<longrightarrow>
          settle em (Resolved response)
            = \<lparr>status = str ''invalid'', message = str ''No account found'',
               o_email = em, code = c, serverMessage = m\<rparr>)
     \<and> (is_number c 0 \<and> m = JStr (str ''Error_Success'') \<longrightarrow>
          settle em (Resolved response)
            = (case toString (redirectUrl response) of
                 Some u \<Rightarrow> \<lparr>status = str ''valid'', message = str ''Success! Redirect: '' @ u,
                             o_email = em, code = c, serverMessage = m\<rparr>
               | None \<Rightarrow> caught em primitive_error))
     \<and> (is_number c 1004 \<and> m = JStr (str ''Error_FailedTooMuch'') \<longrightarrow>
          settle em (Resolved response)
            = \<lparr>status = str ''error'',
               message = str ''Too many failed attempts. IP/Proxy banned'',
               o_email = em, code = c, serverMessage = m\<rparr>)
     \<and> (is_number c 1004 \<and> m = JStr (str ''Error_ECaptcha_VerifyFail'') \<longrightarrow>
          settle em (Resolved response)
            = \<lparr>status = str ''error'', message = str ''Captcha verification failed'',
               o_email = em, code = c, serverMessage = m\<rparr>)
     \<and> (\<not> (is_number c 1004 \<and> m = JStr (str ''Error_NoAccount''))
        \<and> \<not> (is_number c 0 \<and> m = JStr (str ''Error_Success''))
        \<and> \<not> (is_number c 1004 \<and> m = JStr (str ''Error_FailedTooMuch''))
        \<and> \<not> (is_number c 1004 \<and> m = JStr (str ''Error_ECaptcha_VerifyFail'')) \<longrightarrow>
          settle em (Resolved response)
            = (case (toString c, toString m) of
                 (Some cs, Some ms) \<Rightarrow>
                   \<lparr>status = str ''unknown'',
                    message = str ''Code: '' @ cs @ str '', Message: '' @ ms,
                    o_email = em, code = c, serverMessage = m\<rparr>
               | _ \<Rightarrow> caught em primitive_error))"
proof -
  have a: "settle em (Rejected msg)
       = \<lparr>status = str ''error'', message = msg, o_email = em,
          code = JUndefined, serverMessage = JUndefined\<rparr>"
    by (simp add: settle_Rejected caught_def)
  have r1: "settle em (Resolved response)
            = \<lparr>status = str ''invalid'', message = str ''No account found'',
               o_email = em, code = c, serverMessage = m\<rparr>"
    if "is_number c 1004 \<and> m = JStr (str ''Error_NoAccount'')"
    using that assms by (simp add: settle_def classify_def Let_def)
  have r2: "settle em (Resolved response)
            = (case toString (redirectUrl response) of
                 Some u \<Rightarrow> \<lparr>status = str ''valid'', message = str ''Success! Redirect: '' @ u,
                             o_email = em, code = c, serverMessage = m\<rparr>
               | None \<Rightarrow> caught em primitive_error)"
    if "is_number c 0 \<and> m = JStr (str ''Error_Success'')"
    using that assms by (simp add: settle_def classify_def Let_def split: option.split)
  have r3: "settle em (Resolved response)
            = \<lparr>status = str ''error'',
               message = str ''Too many failed attempts. IP/Proxy banned'',
               o_email = em, code = c, serverMessage = m\<rparr>"
    if "is_number c 1004 \<and> m = JStr (str ''Error_FailedTooMuch'')"
    using that assms by (simp add: settle_def classify_def Let_def)
  have r4: "settle em (Resolved response)
            = \<lparr>status = str ''error'', message = str ''Captcha verification failed'',
               o_email = em, code = c, serverMessage = m\<rparr>"
    if "is_number c 1004 \<and> m = JStr (str ''Error_ECaptcha_VerifyFail'')"
    using that assms by (simp add: settle_def classify_def Let_def)
  have r5: "settle em (Resolved response)
            = (case (toString c, toString m) of
                 (Some cs, Some ms) \<Rightarrow>
                   \<lparr>status = str ''unknown'',
                    message = str ''Code: '' @ cs @ str '', Message: '' @ ms,
                    o_email = em, code = c, serverMessage = m\<rparr>
               | _ \<Rightarrow> caught em primitive_error)"
    if "\<not> (is_number c 1004 \<and> m = JStr (str ''Error_NoAccount''))
        \<and> \<not> (is_number c 0 \<and> m = JStr (str ''Error_Success''))
        \<and> \<not> (is_number c 1004 \<and> m = JStr (str ''Error_FailedTooMuch''))
        \<and> \<not> (is_number c 1004 \<and> m = JStr (str ''Error_ECaptcha_VerifyFail''))"
    using that assms
    by (auto simp add: settle_def classify_def Let_def split: option.split)
  from a settle_null status_settle r1 r2 r3 r4 r5 show ?thesis by blast
qed

theorem classification_table_witness:
  "settle (str ''a@x.com'')
     (Resolved (json_reply 0 ''Error_Success''
        [(str ''data'', JObj [(str ''redirect'', JStr (str ''https://x.test/ok''))])]))
     = \<lparr>status = str ''valid'', message = str ''Success! Redirect: https://x.test/ok'',
        o_email = str ''a@x.com'', code = JNum (Dec 0 0),
        serverMessage = JStr (str ''Error_Success'')\<rparr>
   \<and> settle (str ''a@x.com'') (Resolved (json_reply 1004 ''Error_FailedTooMuch'' []))
     = \<lparr>status = str ''error'', message = str ''Too many failed attempts. IP/Proxy banned'',
        o_email = str ''a@x.com'', code = JNum (Dec 1004 0),
        serverMessage = JStr (str ''Error_FailedTooMuch'')\<rparr>
   \<and> settle (str ''a@x.com'') (Resolved (json_reply 500 ''Oops'' []))
     = \<lparr>status = str ''unknown'', message = str ''Code: 500, Message: Oops'',
        o_email = str ''a@x.com'', code = JNum (Dec 500 0),
        serverMessage = JStr (str ''Oops'')\<rparr>
   \<and> settle (str ''a@x.com'')
       (Resolved (JObj [(str ''code'', JNum (Dec 1 21)), (str ''message'', JStr (str ''Big''))]))
     = \<lparr>status = str ''unknown'', message = str ''Code: 1e+21, Message: Big'',
        o_email = str ''a@x.com'', code = JNum (Dec 1 21), serverMessage = JStr (str ''Big'')\<rparr>
   \<and> settle (str ''a@x.com'')
       (Resolved (JObj [(str ''code'', JNum (Dec 10045 (- 1))),
                        (str ''message'', JStr (str ''Error_NoAccount''))]))
     = \<lparr>status = str ''unknown'', message = str ''Code: 1004.5, Message: Error_NoAccount'',
        o_email = str ''a@x.com'', code = JNum (Dec 10045 (- 1)),
        serverMessage = JStr (str ''Error_NoAccount'')\<rparr>"
proof -
  let ?ok = "json_reply 0 ''Error_Success''
        [(str ''data'', JObj [(str ''redirect'', JStr (str ''https://x.test/ok''))])]"
  let ?ban = "json_reply 1004 ''Error_FailedTooMuch'' []"
  let ?odd = "json_reply 500 ''Oops'' []"
  let ?big = "JObj [(str ''code'', JNum (Dec 1 21)), (str ''message'', JStr (str ''Big''))]"
  let ?half = "JObj [(str ''code'', JNum (Dec 10045 (- 1))),
                     (str ''message'', JStr (str ''Error_NoAccount''))]"
  have ok: "get_prop ?ok (str ''code'') = JNum (Dec 0 0)"
    "get_prop ?ok (str ''message'') = JStr (str ''Error_Success'')"
    "toString (redirectUrl ?ok) = Some (str ''https://x.test/ok'')"
    by (simp_all add: json_reply_def redirectUrl_def)
  have ban: "get_prop ?ban (str ''code'') = JNum (Dec 1004 0)"
    "get_prop ?ban (str ''message'') = JStr (str ''Error_FailedTooMuch'')"
    by (simp_all add: json_reply_def)
  have odd: "get_prop ?odd (str ''code'') = JNum (Dec 500 0)"
    "get_prop ?odd (str ''message'') = JStr (str ''Oops'')"
    by (simp_all add: json_reply_def)
  have big: "get_prop ?big (str ''code'') = JNum (Dec 1 21)"
    "get_prop ?big (str ''message'') = JStr (str ''Big'')"
    by simp_all
  have half: "get_prop ?half (str ''code'') = JNum (Dec 10045 (- 1))"
    "get_prop ?half (str ''message'') = JStr (str ''Error_NoAccount'')"
    by simp_all
  have lit: "str ''Success! Redirect: '' @ str ''https://x.test/ok''
      = str ''Success! Redirect: https://x.test/ok''"
    "str ''Code: '' @ num_toString (Dec 500 0) @ str '', Message: '' @ str ''Oops''
      = str ''Code: 500, Message: Oops''"
    "str ''Code: '' @ num_toString (Dec 1 21) @ str '', Message: '' @ str ''Big''
      = str ''Code: 1e+21, Message: Big''"
    "str ''Code: '' @ num_toString (Dec 10045 (- 1)) @ str '', Message: ''
        @ str ''Error_NoAccount''
      = str ''Code: 1004.5, Message: Error_NoAccount''"
    by (simp_all add: str_def unit16_def render_decimal_def numeral_2_eq_2)
  have nn: "?ok \<noteq> JNull" "?ok \<noteq> JUndefined" "?ban \<noteq> JNull" "?ban \<noteq> JUndefined"
    "?odd \<noteq> JNull" "?odd \<noteq> JUndefined" "?big \<noteq> JNull" "?big \<noteq> JUndefined"
    "?half \<noteq> JNull" "?half \<noteq> JUndefined"
    by (simp_all add: json_reply_def)
  note c2 = conjunct2
  have "settle (str ''a@x.com'') (Resolved ?ok)
      = (case toString (redirectUrl ?ok) of
           Some u \<Rightarrow> \<lparr>status = str ''valid'', message = str ''Success! Redirect: '' @ u,
                       o_email = str ''a@x.com'', code = JNum (Dec 0 0),
                       serverMessage = JStr (str ''Error_Success'')\<rparr>
         | None \<Rightarrow> caught (str ''a@x.com'') primitive_error)"
    by (rule classification_table
          [OF nn(1) nn(2) ok(1) [symmetric] ok(2) [symmetric],
           THEN c2, THEN c2, THEN c2, THEN c2, THEN conjunct1, rule_format])
       simp
  then have r_ok: "settle (str ''a@x.com'') (Resolved ?ok)
     = \<lparr>status = str ''valid'', message = str ''Success! Redirect: https://x.test/ok'',
        o_email = str ''a@x.com'', code = JNum (Dec 0 0),
        serverMessage = JStr (str ''Error_Success'')\<rparr>"
    by (simp add: ok(3) lit(1))
  have r_ban: "settle (str ''a@x.com'') (Resolved ?ban)
     = \<lparr>status = str ''error'', message = str ''Too many failed attempts. IP/Proxy banned'',
        o_email = str ''a@x.com'', code = JNum (Dec 1004 0),
        serverMessage = JStr (str ''Error_FailedTooMuch'')\<rparr>"
    by (rule classification_table
          [OF nn(3) nn(4) ban(1) [symmetric] ban(2) [symmetric],
           THEN c2, THEN c2, THEN c2, THEN c2, THEN c2, THEN conjunct1, rule_format])
       simp
  have "settle (str ''a@x.com'') (Resolved ?odd)
      = (case (toString (JNum (Dec 500 0)), toString (JStr (str ''Oops''))) of
           (Some cs, Some ms) \<Rightarrow>
             \<lparr>status = str ''unknown'',
              message = str ''Code: '' @ cs @ str '', Message: '' @ ms,
              o_email = str ''a@x.com'', code = JNum (Dec 500 0),
              serverMessage = JStr (str ''Oops'')\<rparr>
         | _ \<Rightarrow> caught (str ''a@x.com'') primitive_error)"
    by (rule classification_table
          [OF nn(5) nn(6) odd(1) [symmetric] odd(2) [symmetric],
           THEN c2, THEN c2, THEN c2, THEN c2, THEN c2, THEN c2, THEN c2, rule_format])
       simp
  then have r_odd: "settle (str ''a@x.com'') (Resolved ?odd)
     = \<lparr>status = str ''unknown'', message = str ''Code: 500, Message: Oops'',
        o_email = str ''a@x.com'', code = JNum (Dec 500 0),
        serverMessage = JStr (str ''Oops'')\<rparr>"
    using lit(2) by (simp del: num_toString.simps)
  have "settle (str ''a@x.com'') (Resolved ?big)
      = (case (toString (JNum (Dec 1 21)), toString (JStr (str ''Big''))) of
           (Some cs, Some ms) \<Rightarrow>
             \<lparr>status = str ''unknown'',
              message = str ''Code: '' @ cs @ str '', Message: '' @ ms,
              o_email = str ''a@x.com'', code = JNum (Dec 1 21),
              serverMessage = JStr (str ''Big'')\<rparr>
         | _ \<Rightarrow> caught (str ''a@x.com'') primitive_error)"
    by (rule classification_table
          [OF nn(7) nn(8) big(1) [symmetric] big(2) [symmetric],
           THEN c2, THEN c2, THEN c2, THEN c2, THEN c2, THEN c2, THEN c2, rule_format])
       simp
  then have r_big: "settle (str ''a@x.com'') (Resolved ?big)
     = \<lparr>status = str ''unknown'', message = str ''Code: 1e+21, Message: Big'',
        o_email = str ''a@x.com'', code = JNum (Dec 1 21), serverMessage = JStr (str ''Big'')\<rparr>"
    using lit(3) by (simp del: num_toString.simps)
  have "settle (str ''a@x.com'') (Resolved ?half)
      = (case (toString (JNum (Dec 10045 (- 1))), toString (JStr (str ''Error_NoAccount''))) of
           (Some cs, Some ms) \<Rightarrow>
             \<lparr>status = str ''unknown'',
              message = str ''Code: '' @ cs @ str '', Message: '' @ ms,
              o_email = str ''a@x.com'', code = JNum (Dec 10045 (- 1)),
              serverMessage = JStr (str ''Error_NoAccount'')\<rparr>
         | _ \<Rightarrow> caught (str ''a@x.com'') primitive_error)"
    by (rule classification_table
          [OF nn(9) nn(10) half(1) [symmetric] half(2) [symmetric],
           THEN c2, THEN c2, THEN c2, THEN c2, THEN c2, THEN c2, THEN c2, rule_format])
       simp
  then have r_half: "settle (str ''a@x.com'') (Resolved ?half)
     = \<lparr>status = str ''unknown'', message = str ''Code: 1004.5, Message: Error_NoAccount'',
        o_email = str ''a@x.com'', code = JNum (Dec 10045 (- 1)),
        serverMessage = JStr (str ''Error_NoAccount'')\<rparr>"
    using lit(4) by (simp del: num_toString.simps)
  from r_ok r_ban r_odd r_big r_half show ?thesis by blast
qed

text \<open>
  The table's kinds are not the statuses of the source: too many failures, a rejected
  captcha and a failed round trip all have the status \<open>error\<close>. And two responses of
  the remote endpoint leave the table: the body \<open>null\<close> is \<open>error\<close>, not \<open>unknown\<close>,
  and a success whose redirect is an object with an own property \<open>toString\<close> is
  \<open>error\<close>, not \<open>valid\<close>.
\<close>

theorem classification_kinds_counterexample:
  "status (settle (str ''a@x.com'') (Resolved (json_reply 1004 ''Error_FailedTooMuch'' [])))
     = str ''error''
   \<and> status (settle (str ''a@x.com'')
         (Resolved (json_reply 1004 ''Error_ECaptcha_VerifyFail'' [])))
     = str ''error''
   \<and> status (settle (str ''a@x.com'') (Rejected (str ''Request timeout''))) = str ''error''
   \<and> status (settle (str ''a@x.com'') (Resolved JNull)) = str ''error''
   \<and> status (settle (str ''a@x.com'')
         (Resolved (json_reply 0 ''Error_Success''
            [(str ''redirect'', JObj [(str ''toString'', JNum (Dec 1 0))])])))
     = str ''error''"
  by (simp add: settle_def classify_def caught_def json_reply_def redirectUrl_def)

end
